theory Spec2Isabelle
  imports Complex_Main
begin

section \<open>Data model (internal/types.go)\<close>

text \<open>
  Go's \<open>int64\<close> and \<open>int\<close> values are modelled as \<open>int\<close>. The planner only divides,
  multiplies by a loop index below the thread count and adds values bounded by the file
  size, so no intermediate value leaves the 64-bit range when the inputs are in it.
  A \<open>time.Time\<close> is an integer count of nanoseconds. A pointer that may be \<open>nil\<close> is an
  \<open>option\<close>. The field \<open>FileMetadata\<close> of \<open>ResumeMetadata\<close> is named \<open>FileMeta\<close>, apart
  from the record type of that name.
\<close>

record FileMetadata =
  Filename :: string
  Size :: int
  DirectURL :: string
  ShareID :: string
  Timestamp :: int
  Checksum :: string

record SegmentInfo =
  Index :: int
  Start :: int
  End :: int
  Completed :: bool
  Retries :: int

record ResumeMetadata =
  FileMeta :: "FileMetadata option"
  Segments :: "SegmentInfo list"
  CreatedAt :: int
  LastUpdate :: int

record DownloadConfig =
  OutputPath :: string
  Threads :: int
  RateLimit :: int
  ProxyURL :: string
  Quiet :: bool
  ResumeData :: "ResumeMetadata option"

section \<open>Segment planner\<close>

datatype plan_error =
    MetaNil
  | ConfigNil
  | ResumeMissingFileInfo
  | FileSizeMismatch int int
  | FilenameMismatch string string

definition MinSegmentSize :: int where
  "MinSegmentSize = 1024 * 1024"

definition MaxThreads :: int where
  "MaxThreads = 32"

record DownloadPlanner =
  minSegmentSize :: int
  maxThreads :: int

definition NewDownloadPlanner :: DownloadPlanner where
  "NewDownloadPlanner = \<lparr> minSegmentSize = MinSegmentSize, maxThreads = MaxThreads \<rparr>"

text \<open>Go's integer division truncates toward zero.\<close>

definition go_div :: "int \<Rightarrow> int \<Rightarrow> int" where
  "go_div a b = sgn a * sgn b * (\<bar>a\<bar> div \<bar>b\<bar>)"

text \<open>The \<open>for i := 0; i < threadCount; i++\<close> loop of \<open>CalculateSegments\<close>.\<close>

function segment_loop :: "int \<Rightarrow> int \<Rightarrow> int \<Rightarrow> int \<Rightarrow> SegmentInfo list \<Rightarrow> SegmentInfo list" where
  "segment_loop i threadCount segmentSize fileSize segments =
     (if i < threadCount then
        (let start = i * segmentSize;
             end0 = start + segmentSize - 1;
             end1 = (if i = threadCount - 1 then fileSize - 1 else end0)
         in segment_loop (i + 1) threadCount segmentSize fileSize
              (segments @ [\<lparr> Index = i, Start = start, End = end1,
                             Completed = False, Retries = 0 \<rparr>]))
      else segments)"
  by pat_completeness auto
termination
  by (relation "measure (\<lambda>(i, threadCount, _, _, _). nat (threadCount - i))") auto

declare segment_loop.simps [simp del]

definition CalculateSegments :: "DownloadPlanner \<Rightarrow> int \<Rightarrow> int \<Rightarrow> SegmentInfo list" where
  "CalculateSegments p fileSize threadCount0 =
     (if fileSize \<le> 0 then []
      else
        let threadCount1 = (if threadCount0 \<le> 0 then 1 else threadCount0);
            threadCount2 = (if threadCount1 > maxThreads p then maxThreads p else threadCount1)
        in if fileSize < minSegmentSize p then
             [\<lparr> Index = 0, Start = 0, End = fileSize - 1, Completed = False, Retries = 0 \<rparr>]
           else
             let segmentSize0 = go_div fileSize threadCount2;
                 threadCount3 =
                   (if segmentSize0 < minSegmentSize p then
                      (let tc = go_div fileSize (minSegmentSize p)
                       in if tc = 0 then 1 else tc)
                    else threadCount2);
                 segmentSize =
                   (if segmentSize0 < minSegmentSize p then go_div fileSize threadCount3
                    else segmentSize0)
             in segment_loop 0 threadCount3 segmentSize fileSize [])"

definition determineOptimalThreads :: "DownloadPlanner \<Rightarrow> int \<Rightarrow> int \<Rightarrow> int" where
  "determineOptimalThreads p fileSize requestedThreads =
     (let optimalThreads1 = (if requestedThreads \<le> 0 then 1 else requestedThreads);
          optimalThreads2 =
            (if optimalThreads1 > maxThreads p then maxThreads p else optimalThreads1);
          maxPossibleThreads0 = go_div fileSize (minSegmentSize p);
          maxPossibleThreads = (if maxPossibleThreads0 = 0 then 1 else maxPossibleThreads0)
      in if optimalThreads2 > maxPossibleThreads then maxPossibleThreads else optimalThreads2)"

definition planResumeDownload ::
  "DownloadPlanner \<Rightarrow> ResumeMetadata \<Rightarrow> FileMetadata \<Rightarrow> plan_error + SegmentInfo list" where
  "planResumeDownload p resumeData currentMeta =
     (case FileMeta resumeData of
        None \<Rightarrow> Inl ResumeMissingFileInfo
      | Some fm \<Rightarrow>
          if Size fm \<noteq> Size currentMeta then Inl (FileSizeMismatch (Size fm) (Size currentMeta))
          else if Filename fm \<noteq> Filename currentMeta
            then Inl (FilenameMismatch (Filename fm) (Filename currentMeta))
          else Inr (Segments resumeData))"

definition PlanDownload ::
  "DownloadPlanner \<Rightarrow> FileMetadata option \<Rightarrow> DownloadConfig option
     \<Rightarrow> plan_error + SegmentInfo list" where
  "PlanDownload p meta config =
     (case meta of
        None \<Rightarrow> Inl MetaNil
      | Some m \<Rightarrow>
          (case config of
             None \<Rightarrow> Inl ConfigNil
           | Some c \<Rightarrow>
               (case ResumeData c of
                  Some r \<Rightarrow> planResumeDownload p r m
                | None \<Rightarrow>
                    let optimalThreads = determineOptimalThreads p (Size m) (Threads c)
                    in Inr (CalculateSegments p (Size m) optimalThreads))))"

text \<open>\<open>IsDownloadComplete\<close>: the range loop returns at the first incomplete segment.\<close>

fun all_completed_loop :: "SegmentInfo list \<Rightarrow> bool" where
  "all_completed_loop [] = True"
| "all_completed_loop (segment # rest) =
     (if \<not> Completed segment then False else all_completed_loop rest)"

definition IsDownloadComplete :: "DownloadPlanner \<Rightarrow> SegmentInfo list \<Rightarrow> bool" where
  "IsDownloadComplete p segments =
     (if all_completed_loop segments then length segments > 0 else False)"

subsection \<open>What it means for a segment list to partition the file\<close>

fun contiguous_from :: "int \<Rightarrow> SegmentInfo list \<Rightarrow> bool" where
  "contiguous_from s [] = True"
| "contiguous_from s (x # xs) = (Start x = s \<and> contiguous_from (End x + 1) xs)"

definition seg_len :: "SegmentInfo \<Rightarrow> int" where
  "seg_len x = End x - Start x + 1"

fun indexed_from :: "int \<Rightarrow> SegmentInfo list \<Rightarrow> bool" where
  "indexed_from i [] = True"
| "indexed_from i (x # xs) = (Index x = i \<and> indexed_from (i + 1) xs)"

definition last_end :: "int \<Rightarrow> SegmentInfo list \<Rightarrow> int" where
  "last_end d xs = (case xs of [] \<Rightarrow> d | _ \<Rightarrow> End (last xs))"

definition partitions_file :: "int \<Rightarrow> SegmentInfo list \<Rightarrow> bool" where
  "partitions_file fileSize segs =
     (contiguous_from 0 segs
      \<and> indexed_from 0 segs
      \<and> last_end (fileSize - 1) segs = fileSize - 1
      \<and> sum_list (map seg_len segs) = fileSize
      \<and> list_all (\<lambda>x. Start x \<le> End x) segs
      \<and> (if fileSize \<ge> MinSegmentSize
          then list_all (\<lambda>x. seg_len x \<ge> MinSegmentSize) (butlast segs) else True)
      \<and> (if fileSize = 0 then segs = [] else True))"

text \<open>The segment appended by iteration \<open>i\<close> of the loop, and the loop invariant.\<close>

definition mk_seg :: "int \<Rightarrow> int \<Rightarrow> int \<Rightarrow> int \<Rightarrow> SegmentInfo" where
  "mk_seg i threadCount segmentSize fileSize =
     \<lparr> Index = i, Start = i * segmentSize,
       End = (if i = threadCount - 1 then fileSize - 1 else i * segmentSize + segmentSize - 1),
       Completed = False, Retries = 0 \<rparr>"

definition loop_ok :: "int \<Rightarrow> int \<Rightarrow> int \<Rightarrow> SegmentInfo list \<Rightarrow> bool" where
  "loop_ok i ss fs L =
     (contiguous_from (i * ss) L \<and> indexed_from i L \<and> L \<noteq> [] \<and> End (last L) = fs - 1
      \<and> sum_list (map seg_len L) = fs - i * ss
      \<and> list_all (\<lambda>x. Start x \<le> End x) L
      \<and> list_all (\<lambda>x. seg_len x = ss) (butlast L))"


section \<open>Token-bucket rate limiter\<close>

text \<open>
  \<open>float64\<close> values are modelled by exact reals, a \<open>time.Time\<close> and a \<open>time.Duration\<close> by
  an integer count of nanoseconds, and every \<open>time.Now()\<close> the code reads is an explicit
  argument of the operation that reads it. The operations are modelled as atomic steps on
  the limiter's fields. The conversion \<open>int64(x)\<close> of a float truncates toward zero.
\<close>

record NetworkStats =
  totalBytes :: int
  totalDuration :: int
  lastMeasurement :: int
  avgSpeed :: real
  measurements :: "(int \<times> real) list"
  maxMeasurements :: int

record TokenBucketLimiter =
  rate :: int
  bucket :: int
  maxBucket :: int
  lastUpdate :: int
  threadCount :: int
  originalRate :: int
  adjustmentFactor :: real
  lastAdjustment :: int
  networkStats :: NetworkStats

definition trunc_int :: "real \<Rightarrow> int" where
  "trunc_int x = (if 0 \<le> x then \<lfloor>x\<rfloor> else \<lceil>x\<rceil>)"

definition seconds :: "int \<Rightarrow> real" where
  "seconds d = real_of_int d / 1000000000"

text \<open>The \<open>int32\<close> increment of \<open>threadCount++\<close> wraps around.\<close>

definition wrap32 :: "int \<Rightarrow> int" where
  "wrap32 x = (x + 2147483648) mod 4294967296 - 2147483648"

definition NewTokenBucketLimiter :: "int \<Rightarrow> int \<Rightarrow> int \<Rightarrow> int \<Rightarrow> TokenBucketLimiter" where
  "NewTokenBucketLimiter bytesPerSecond now1 now2 now3 =
     \<lparr> rate = bytesPerSecond, bucket = bytesPerSecond, maxBucket = bytesPerSecond,
       lastUpdate = now1, threadCount = 0, originalRate = bytesPerSecond,
       adjustmentFactor = 1, lastAdjustment = now2,
       networkStats = \<lparr> totalBytes = 0, totalDuration = 0, lastMeasurement = now3,
                        avgSpeed = 0, measurements = [], maxMeasurements = 10 \<rparr> \<rparr>"


definition calculateEffectiveRate :: "TokenBucketLimiter \<Rightarrow> int" where
  "calculateEffectiveRate r =
     (if threadCount r \<le> 1 then rate r
      else
        let minPerThread = 1024;
            totalMinimum = minPerThread * threadCount r
        in if rate r \<le> totalMinimum then go_div (rate r) (threadCount r)
           else rate r)"

definition SetRate :: "TokenBucketLimiter \<Rightarrow> int \<Rightarrow> TokenBucketLimiter" where
  "SetRate r bytesPerSecond =
     (let r1 = r \<lparr> rate := bytesPerSecond, originalRate := bytesPerSecond,
                     maxBucket := bytesPerSecond \<rparr>
      in if bucket r1 > maxBucket r1 then r1 \<lparr> bucket := maxBucket r1 \<rparr> else r1)"

definition RegisterThread :: "TokenBucketLimiter \<Rightarrow> TokenBucketLimiter" where
  "RegisterThread r = r \<lparr> threadCount := wrap32 (threadCount r + 1) \<rparr>"

definition UnregisterThread :: "TokenBucketLimiter \<Rightarrow> TokenBucketLimiter" where
  "UnregisterThread r =
     (if threadCount r > 0 then r \<lparr> threadCount := threadCount r - 1 \<rparr> else r)"

text \<open>
  \<open>utilizationRatio := recentSpeed / targetRate\<close> is a float division: with a zero target
  it is an infinity of the sign of the speed (or NaN for \<open>0/0\<close>, which compares false).
\<close>

definition ratio_less :: "real \<Rightarrow> real \<Rightarrow> real \<Rightarrow> bool" where
  "ratio_less speed target c = (if target = 0 then speed < 0 else speed / target < c)"

definition ratio_greater :: "real \<Rightarrow> real \<Rightarrow> real \<Rightarrow> bool" where
  "ratio_greater speed target c = (if target = 0 then speed > 0 else speed / target > c)"

text \<open>
  \<open>adjustRateBasedOnPerformance\<close>; \<open>sinceNow\<close> is the clock read by \<open>time.Since\<close> and
  \<open>adjNow\<close> the one read by the final \<open>time.Now()\<close>. \<open>apply_adjustment\<close> is the tail of
  the function, after the branches have chosen \<open>newAdjustmentFactor\<close>.
\<close>

definition apply_adjustment :: "TokenBucketLimiter \<Rightarrow> real \<Rightarrow> int \<Rightarrow> TokenBucketLimiter" where
  "apply_adjustment r newAdjustmentFactor adjNow =
     (let r0 = r \<lparr> adjustmentFactor := newAdjustmentFactor \<rparr>;
          newRate = trunc_int (real_of_int (originalRate r0) * adjustmentFactor r0);
          r1 = r0 \<lparr> rate := newRate, maxBucket := newRate \<rparr>;
          r2 = (if bucket r1 > maxBucket r1 then r1 \<lparr> bucket := maxBucket r1 \<rparr> else r1)
      in r2 \<lparr> lastAdjustment := adjNow \<rparr>)"

definition adjustRateBasedOnPerformance ::
  "TokenBucketLimiter \<Rightarrow> int \<Rightarrow> int \<Rightarrow> TokenBucketLimiter" where
  "adjustRateBasedOnPerformance r sinceNow adjNow =
     (if sinceNow - lastAdjustment r < 5 * 1000000000 then r
      else if length (measurements (networkStats r)) < 3 then r
      else
        let recentSpeed = avgSpeed (networkStats r);
            targetRate = real_of_int (originalRate r)
        in if ratio_less recentSpeed targetRate (8 / 10) then
             apply_adjustment r (adjustmentFactor r * (9 / 10)) adjNow
           else if ratio_greater recentSpeed targetRate (95 / 100) \<and> adjustmentFactor r < 1 then
             (let f0 = adjustmentFactor r * (105 / 100);
                  newAdjustmentFactor = (if f0 > 1 then 1 else f0)
              in apply_adjustment r newAdjustmentFactor adjNow)
           else r)"

definition UpdateNetworkStats ::
  "TokenBucketLimiter \<Rightarrow> int \<Rightarrow> int \<Rightarrow> int \<Rightarrow> int \<Rightarrow> int \<Rightarrow> TokenBucketLimiter" where
  "UpdateNetworkStats r bytesTransferred duration now sinceNow adjNow =
     (if duration \<le> 0 \<or> bytesTransferred \<le> 0 then r
      else
        let ns = networkStats r;
            speed = real_of_int bytesTransferred / seconds duration;
            kept = (if int (length (measurements ns)) \<ge> maxMeasurements ns
                    then drop 1 (measurements ns) else measurements ns);
            ms = kept @ [(now, speed)];
            ns1 = ns \<lparr> measurements := ms,
                        totalBytes := totalBytes ns + bytesTransferred,
                        totalDuration := totalDuration ns + duration,
                        lastMeasurement := now \<rparr>;
            ns2 = (if length ms > 0
                   then ns1 \<lparr> avgSpeed := sum_list (map snd ms) / real (length ms) \<rparr>
                   else ns1)
        in adjustRateBasedOnPerformance (r \<lparr> networkStats := ns2 \<rparr>) sinceNow adjNow)"

text \<open>
  \<open>Wait\<close>: \<open>startTime\<close> and \<open>now\<close> are the two clock reads at entry, \<open>finish\<close> the one of
  \<open>time.Since(startTime)\<close>, \<open>cancelled\<close> says whether the context is done before the
  timer fires, and \<open>u1\<close>, \<open>u2\<close>, \<open>u3\<close> are the clock reads of the nested
  \<open>UpdateNetworkStats\<close>. The result is whether \<open>Wait\<close> returned \<open>nil\<close>, and the limiter
  afterwards. The length of the sleep is not part of the state.
\<close>

definition Wait ::
  "TokenBucketLimiter \<Rightarrow> int \<Rightarrow> int \<Rightarrow> int \<Rightarrow> int \<Rightarrow> bool \<Rightarrow> int \<Rightarrow> int \<Rightarrow> int
     \<Rightarrow> bool \<times> TokenBucketLimiter" where
  "Wait r n startTime now finish cancelled u1 u2 u3 =
     (if rate r \<le> 0 then (True, r)
      else
        let elapsed = now - lastUpdate r;
            r1 = r \<lparr> lastUpdate := now \<rparr>;
            effectiveRate = calculateEffectiveRate r1;
            tokensToAdd = trunc_int (seconds elapsed * real_of_int effectiveRate);
            r2 = r1 \<lparr> bucket := bucket r1 + tokensToAdd \<rparr>;
            r3 = (if bucket r2 > maxBucket r2 then r2 \<lparr> bucket := maxBucket r2 \<rparr> else r2);
            needed = n
        in if bucket r3 \<ge> needed then
             (let r4 = r3 \<lparr> bucket := bucket r3 - needed \<rparr>;
                  transferTime = finish - startTime
              in (True, if transferTime > 0 then UpdateNetworkStats r4 needed transferTime u1 u2 u3
                        else r4))
           else
             (let r4 = r3 \<lparr> bucket := 0 \<rparr>
              in if cancelled then (False, r4)
                 else
                   (let totalTime = finish - startTime
                    in (True, if totalTime > 0 then UpdateNetworkStats r4 needed totalTime u1 u2 u3
                              else r4))))"

datatype limiter_call =
    CallWait int int int int bool int int int
  | CallSetRate int
  | CallRegisterThread
  | CallUnregisterThread
  | CallUpdateNetworkStats int int int int int

fun limiter_step :: "TokenBucketLimiter \<Rightarrow> limiter_call \<Rightarrow> TokenBucketLimiter" where
  "limiter_step r (CallWait n startTime now finish cancelled u1 u2 u3) =
     snd (Wait r n startTime now finish cancelled u1 u2 u3)"
| "limiter_step r (CallSetRate bps) = SetRate r bps"
| "limiter_step r CallRegisterThread = RegisterThread r"
| "limiter_step r CallUnregisterThread = UnregisterThread r"
| "limiter_step r (CallUpdateNetworkStats b d now sinceNow adjNow) =
     UpdateNetworkStats r b d now sinceNow adjNow"

definition limiter_run :: "TokenBucketLimiter \<Rightarrow> limiter_call list \<Rightarrow> TokenBucketLimiter" where
  "limiter_run r calls = foldl limiter_step r calls"

fun sets_rate_within :: "int \<Rightarrow> limiter_call \<Rightarrow> bool" where
  "sets_rate_within bound (CallSetRate bps) = (0 \<le> bps \<and> bps \<le> bound)"
| "sets_rate_within bound _ = True"

text \<open>The invariant of the limiter when every configured rate is non-negative.\<close>

definition limiter_inv :: "TokenBucketLimiter \<Rightarrow> bool" where
  "limiter_inv r = (0 \<le> originalRate r \<and> rate r \<le> originalRate r
                    \<and> 0 < adjustmentFactor r \<and> adjustmentFactor r \<le> 1)"

section \<open>HTTP transport: retry loop (internal/config.go)\<close>



record http_response =
  StatusCode :: int
  Header :: "(string \<times> string) list"














section \<open>Worker pool: downloading one segment\<close>

text \<open>
  An \<open>error\<close> value is modelled by its \<open>Error()\<close> text, which is all that
  \<open>isNetworkError\<close> looks at; the identity test \<open>err == io.EOF\<close> is kept apart in
  \<open>read_error\<close>. Texts of errors that come from the operating system, the HTTP client or
  the context are supplied by the environment.
\<close>

definition digit_char :: "nat \<Rightarrow> char" where
  "digit_char d = char_of (48 + d)"

function digits :: "nat \<Rightarrow> string" where
  "digits n = (if n < 10 then [digit_char n] else digits (n div 10) @ [digit_char (n mod 10)])"
  by pat_completeness auto
termination
  by (relation "measure id") auto

declare digits.simps [simp del]

text \<open>The \<open>%d\<close> verb of \<open>fmt\<close>.\<close>

definition dec :: "int \<Rightarrow> string" where
  "dec i = (if i < 0 then CHR ''-'' # digits (nat (- i)) else digits (nat i))"

text \<open>\<open>TeraboxError.Error()\<close>: the parts joined by \<open>" - "\<close>.\<close>

definition terabox_error_text :: "int \<Rightarrow> string \<Rightarrow> string \<Rightarrow> string \<Rightarrow> string" where
  "terabox_error_text code type_name message suggestion =
     ''terabox error (code: '' @ dec code @ '', type: '' @ type_name @ '')''
     @ (if message \<noteq> [] then '' - '' @ message else [])
     @ (if suggestion \<noteq> [] then '' - Suggestion: '' @ suggestion else [])"

definition NewRateLimitError :: "int \<Rightarrow> string" where
  "NewRateLimitError retryAfter =
     terabox_error_text 429 ''RateLimit'' ''Rate limit exceeded''
       (''Please wait '' @ dec retryAfter @ '' seconds before retrying'')"

definition forbidden_error :: string where
  "forbidden_error =
     terabox_error_text 403 ''PermissionDenied'' ''Access forbidden''
       ''Permission denied. Check file/directory permissions or try running with appropriate privileges''"

text \<open>
  \<open>containsErrorSubstring\<close>: position \<open>i\<close> of the source's loop is the suffix of \<open>s\<close>
  that the recursion has reached.
\<close>

fun containsErrorSubstring :: "string \<Rightarrow> string \<Rightarrow> bool" where
  "containsErrorSubstring [] substr = (substr = [])"
| "containsErrorSubstring (c # s) substr =
     (if length substr \<le> length (c # s) then
        (if take (length substr) (c # s) = substr then True
         else containsErrorSubstring s substr)
      else False)"

definition networkErrors :: "string list" where
  "networkErrors =
     [''connection reset'', ''connection refused'', ''timeout'', ''temporary failure'',
      ''network is unreachable'', ''no route to host'', ''broken pipe'',
      ''context deadline exceeded'', ''EOF'']"

fun matches_any :: "string \<Rightarrow> string list \<Rightarrow> bool" where
  "matches_any errStr [] = False"
| "matches_any errStr (pattern # rest) =
     (if containsErrorSubstring errStr pattern then True else matches_any errStr rest)"

definition isNetworkError :: "string option \<Rightarrow> bool" where
  "isNetworkError err =
     (case err of None \<Rightarrow> False | Some errStr \<Rightarrow> matches_any errStr networkErrors)"

datatype read_error = IoEOF | ReadErr string

text \<open>
  One iteration of the copy loop, as the environment answers it: the count and error of
  \<open>src.Read\<close>, the error of \<open>rateLimiter.Wait\<close>, the count and error of \<open>dst.Write\<close>, and
  \<open>ctx.Err()\<close> when the context is done at the end of the iteration. A reader returns
  between 0 and \<open>len(p)\<close> bytes and a writer writes between 0 and \<open>len(p)\<close> bytes, so the
  model clips the two counts to that range. A body whose steps are used up has ended:
  its next read returns \<open>(0, io.EOF)\<close>.
\<close>

record copy_step =
  read_n :: int
  read_err :: "read_error option"
  wait_err :: "string option"
  write_n :: int
  write_err :: "string option"
  ctx_err :: "string option"

datatype copy_exit = ReachedMax | ReachedEOF | CopyError string

text \<open>
  The body of the copy loop: the new \<open>totalWritten\<close>, and how the loop is left if this
  iteration leaves it.
\<close>

definition short_write_error :: "int \<Rightarrow> int \<Rightarrow> string" where
  "short_write_error written n =
     ''short write: wrote '' @ dec written @ '', expected '' @ dec n"

definition rate_limiting_error :: "string \<Rightarrow> string" where
  "rate_limiting_error e = ''rate limiting error: '' @ e"

definition copy_iteration ::
  "bool \<Rightarrow> int \<Rightarrow> int \<Rightarrow> copy_step \<Rightarrow> int \<times> copy_exit option" where
  "copy_iteration hasLimiter maxBytes totalWritten st =
     (let bufferSize = 32 * 1024;
          remaining = maxBytes - totalWritten;
          toRead = (if bufferSize > remaining then remaining else bufferSize);
          n = max 0 (min (read_n st) toRead)
      in if n > 0 \<and> hasLimiter \<and> wait_err st \<noteq> None then
           (totalWritten, Some (CopyError (rate_limiting_error (the (wait_err st)))))
         else
           let written = (if n > 0 then max 0 (min (write_n st) n) else 0);
               total1 = totalWritten + written
           in if n > 0 \<and> write_err st \<noteq> None then
                (total1, Some (CopyError (the (write_err st))))
              else if n > 0 \<and> written \<noteq> n then
                (total1, Some (CopyError (short_write_error written n)))
              else
                (case read_err st of
                   Some IoEOF \<Rightarrow> (total1, Some ReachedEOF)
                 | Some (ReadErr e) \<Rightarrow> (total1, Some (CopyError e))
                 | None \<Rightarrow>
                     (case ctx_err st of
                        Some e \<Rightarrow> (total1, Some (CopyError e))
                      | None \<Rightarrow> (total1, None))))"

fun copy_loop :: "bool \<Rightarrow> int \<Rightarrow> int \<Rightarrow> copy_step list \<Rightarrow> int \<times> copy_exit" where
  "copy_loop hasLimiter maxBytes totalWritten [] =
     (if totalWritten < maxBytes then (totalWritten, ReachedEOF) else (totalWritten, ReachedMax))"
| "copy_loop hasLimiter maxBytes totalWritten (st # rest) =
     (if totalWritten < maxBytes then
        (case copy_iteration hasLimiter maxBytes totalWritten st of
           (total1, Some ex) \<Rightarrow> (total1, ex)
         | (total1, None) \<Rightarrow> copy_loop hasLimiter maxBytes total1 rest)
      else (totalWritten, ReachedMax))"

definition copyWithRateLimit :: "bool \<Rightarrow> copy_step list \<Rightarrow> int \<Rightarrow> int \<times> string option" where
  "copyWithRateLimit hasLimiter src maxBytes =
     (case copy_loop hasLimiter maxBytes 0 src of
        (totalWritten, CopyError e) \<Rightarrow> (totalWritten, Some e)
      | (totalWritten, _) \<Rightarrow> (totalWritten, None))"

text \<open>
  The fields of \<open>DownloadJob\<close> and \<open>DownloadResult\<close>; the job's \<open>OutputPath\<close> is named
  \<open>JobOutputPath\<close> and the result's \<open>Completed\<close> is named \<open>Completed'\<close> here, apart from
  the fields of \<open>DownloadConfig\<close> and \<open>SegmentInfo\<close>.
\<close>

record DownloadJob =
  Segment :: SegmentInfo
  FileURL :: string
  JobOutputPath :: string
  PartPath :: string

record DownloadResult =
  SegmentIndex :: int
  BytesWritten :: int
  Error :: "string option"
  Completed' :: bool

text \<open>
  What the environment answers to one call of \<open>downloadSegment\<close>: the errors of
  \<open>os.OpenFile\<close> and \<open>file.Seek\<close>, the result of \<open>GetWithContext\<close>, and the response body.
\<close>

record segment_env =
  open_err :: "string option"
  seek_err :: "string option"
  get_result :: "string + http_response"
  body :: "copy_step list"

definition downloadSegment ::
  "bool \<Rightarrow> DownloadJob \<Rightarrow> segment_env \<Rightarrow> DownloadResult \<Rightarrow> string option \<times> DownloadResult" where
  "downloadSegment hasLimiter job env result =
     (case open_err env of
        Some e \<Rightarrow> (Some (''failed to open part file: '' @ e), result)
      | None \<Rightarrow>
     (case seek_err env of
        Some e \<Rightarrow> (Some (''failed to seek to segment position: '' @ e), result)
      | None \<Rightarrow>
     (case get_result env of
        Inl e \<Rightarrow> (Some (''failed to execute HTTP request: '' @ e), result)
      | Inr resp \<Rightarrow>
          if StatusCode resp \<noteq> 206 \<and> StatusCode resp \<noteq> 200 then
            (if StatusCode resp = 416 then
               (Some ''range not satisfiable: segment may be invalid'', result)
             else if StatusCode resp = 429 then (Some (NewRateLimitError 60), result)
             else if StatusCode resp = 403 then (Some forbidden_error, result)
             else (Some (''unexpected HTTP status: '' @ dec (StatusCode resp)), result))
          else
            (case copyWithRateLimit hasLimiter (body env)
                    (End (Segment job) - Start (Segment job) + 1) of
               (bytesWritten, Some e) \<Rightarrow> (Some (''failed to copy segment data: '' @ e), result)
             | (bytesWritten, None) \<Rightarrow> (None, result \<lparr> BytesWritten := bytesWritten \<rparr>)))))"

text \<open>
  \<open>processJob\<close>: \<open>env k\<close> answers attempt \<open>k\<close>, and \<open>cancel k\<close> is \<open>ctx.Err()\<close> when the
  context is done during the backoff after attempt \<open>k\<close>.
\<close>

function processJob_loop ::
  "bool \<Rightarrow> DownloadJob \<Rightarrow> (int \<Rightarrow> segment_env) \<Rightarrow> (int \<Rightarrow> string option) \<Rightarrow> int
     \<Rightarrow> DownloadResult \<Rightarrow> DownloadResult" where
  "processJob_loop hasLimiter job env cancel attempt result =
     (let maxRetries = 3 in
      if attempt < maxRetries then
        (case downloadSegment hasLimiter job (env attempt) result of
           (None, result1) \<Rightarrow> result1 \<lparr> Completed' := True \<rparr>
         | (Some err, result1) \<Rightarrow>
             if \<not> isNetworkError (Some err) \<or> attempt = maxRetries - 1 then
               result1 \<lparr> Error := Some err \<rparr>
             else
               (case cancel attempt of
                  Some ctxErr \<Rightarrow> result1 \<lparr> Error := Some ctxErr \<rparr>
                | None \<Rightarrow> processJob_loop hasLimiter job env cancel (attempt + 1) result1))
      else result)"
  by pat_completeness auto
termination
  by (relation "measure (\<lambda>(hasLimiter, job, env, cancel, attempt, result). nat (3 - attempt))")
     auto

declare processJob_loop.simps [simp del]

definition processJob ::
  "bool \<Rightarrow> DownloadJob \<Rightarrow> (int \<Rightarrow> segment_env) \<Rightarrow> (int \<Rightarrow> string option) \<Rightarrow> DownloadResult" where
  "processJob hasLimiter job env cancel =
     processJob_loop hasLimiter job env cancel 0
       \<lparr> SegmentIndex = Index (Segment job), BytesWritten = 0, Error = None, Completed' = False \<rparr>"

text \<open>A result in which neither \<open>Completed\<close> nor \<open>Error\<close> is set yet.\<close>

definition fresh :: "DownloadResult \<Rightarrow> bool" where
  "fresh r = (\<not> Completed' r \<and> Error r = None)"

text \<open>
  A job for the ten bytes 0 to 9, a body step that reads and writes \<open>n\<close> bytes, a response
  body that ends after 4 bytes, and one that delivers all 10.
\<close>

definition job10 :: DownloadJob where
  "job10 = \<lparr> Segment = \<lparr> Index = 0, Start = 0, End = 9, Completed = False, Retries = 0 \<rparr>,
             FileURL = ''http://h/f'', JobOutputPath = ''f'', PartPath = ''f.part'' \<rparr>"

definition read_step :: "int \<Rightarrow> read_error option \<Rightarrow> copy_step" where
  "read_step n e = \<lparr> read_n = n, read_err = e, wait_err = None, write_n = n,
                     write_err = None, ctx_err = None \<rparr>"

definition env_short :: "int \<Rightarrow> segment_env" where
  "env_short k = \<lparr> open_err = None, seek_err = None,
                   get_result = Inr \<lparr> StatusCode = 206, Header = [] \<rparr>,
                   body = [read_step 4 None, read_step 0 (Some IoEOF)] \<rparr>"

definition env_full :: "int \<Rightarrow> segment_env" where
  "env_full k = \<lparr> open_err = None, seek_err = None,
                  get_result = Inr \<lparr> StatusCode = 206, Header = [] \<rparr>,
                  body = [read_step 4 None, read_step 6 None] \<rparr>"

section \<open>Download coordinator\<close>

text \<open>
  The coordinator is modelled by the sequence of actions it performs, in program order.
  The environment answers each action: the errors of the file operations, what
  \<open>DetectResumableDownload\<close> finds, and, for every attempt, the results that arrive on the
  pool's result channel until it is closed. The workers themselves run concurrently and
  are represented by those results only. \<open>JoinWorkers\<close> is the \<open>wg.Wait()\<close> of
  \<open>pool.shutdown\<close>, which \<open>executeDownload\<close> defers.
\<close>

datatype coord_event =
    EnsureDir
  | DetectResume
  | RemoveStaleResume
  | PlanSegments
  | CreatePartFile
  | ValidatePartFile
  | SaveResume
  | OpenPartFile
  | TruncatePartFile
  | StartWorkers
  | ResultReceived int
  | UpdateSegmentProgress int
  | CancelPool
  | AtomicRename
  | ProgressFinish
  | JoinWorkers
  | ClosePartFile
  | ReloadSegments
  | Backoff int
  | VerifyIntegrity
  | CleanupResumeMetadata

datatype detect_answer = DetectNothing | DetectFailed string | DetectFound ResumeMetadata

record attempt_io =
  open_part_err :: "string option"
  truncate_err :: "string option"
  results :: "DownloadResult list"
  rename_err :: "string option"

record download_env =
  ensure_dir_err :: "string option"
  detect :: detect_answer
  part_file_err :: "string option"
  save_err :: "string option"
  attempt_ios :: "int \<Rightarrow> attempt_io"
  reloads :: "int \<Rightarrow> ResumeMetadata option"
  file_size :: "string + int"
  cleanup_err :: "string option"

definition ValidateResumeCompatibility ::
  "DownloadPlanner \<Rightarrow> ResumeMetadata \<Rightarrow> FileMetadata \<Rightarrow> int \<Rightarrow> string option" where
  "ValidateResumeCompatibility p resumeData currentMeta now =
     (case FileMeta resumeData of
        None \<Rightarrow> Some ''resume metadata missing file information''
      | Some fm \<Rightarrow>
          if Size fm \<noteq> Size currentMeta then
            Some (''file size changed: resume='' @ dec (Size fm) @ '', current=''
                  @ dec (Size currentMeta))
          else
            let maxAge = 7 * 24 * 3600 * 1000000000 in
            if now - LastUpdate resumeData > maxAge then Some ''resume data is too old''
            else None)"

definition containsError :: "string \<Rightarrow> string \<Rightarrow> bool" where
  "containsError s substr =
     (length s \<ge> length substr \<and>
        (s = substr \<or>
         length s > length substr \<and>
           (take (length substr) s = substr \<or>
            drop (length s - length substr) s = substr \<or>
            containsErrorSubstring s substr)))"

definition recoverablePatterns :: "string list" where
  "recoverablePatterns =
     [''connection reset'', ''connection refused'', ''timeout'', ''temporary failure'',
      ''network is unreachable'', ''no route to host'', ''broken pipe'',
      ''context deadline exceeded'']"

fun contains_any :: "string \<Rightarrow> string list \<Rightarrow> bool" where
  "contains_any errStr [] = False"
| "contains_any errStr (pattern # rest) =
     (if containsError errStr pattern then True else contains_any errStr rest)"

text \<open>
  \<open>isRecoverableError\<close> on an error built by \<open>fmt.Errorf\<close>, which is never a
  \<open>*TeraboxError\<close> itself: the type assertion fails and the text decides.
\<close>

definition isRecoverableError :: "string option \<Rightarrow> bool" where
  "isRecoverableError err =
     (case err of None \<Rightarrow> False | Some errStr \<Rightarrow> contains_any errStr recoverablePatterns)"

text \<open>The loop over the result channel: the error it returns, and its actions.\<close>

fun result_loop ::
  "int \<Rightarrow> int \<Rightarrow> DownloadResult list \<Rightarrow> string option \<times> coord_event list" where
  "result_loop completedSegments expectedSegments [] = (None, [])"
| "result_loop completedSegments expectedSegments (result # rest) =
     (case Error result of
        Some e \<Rightarrow>
          (Some (''segment '' @ dec (SegmentIndex result) @ '' download failed: '' @ e),
           [ResultReceived (SegmentIndex result), CancelPool])
      | None \<Rightarrow>
          let evs = ResultReceived (SegmentIndex result)
                    # (if Completed' result then [UpdateSegmentProgress (SegmentIndex result)]
                       else []);
              completed1 = (if Completed' result then completedSegments + 1
                            else completedSegments)
          in if completed1 \<ge> expectedSegments then (None, evs)
             else (case result_loop completed1 expectedSegments rest of
                     (err, tr) \<Rightarrow> (err, evs @ tr)))"

text \<open>
  The three deferred calls of \<open>executeDownload\<close>, in the order they run when the function
  returns after the pool was created.
\<close>

definition deferred_calls :: "coord_event list" where
  "deferred_calls = [ProgressFinish, CancelPool, JoinWorkers, ClosePartFile]"

definition executeDownload ::
  "FileMetadata \<Rightarrow> SegmentInfo list \<Rightarrow> attempt_io \<Rightarrow> string option \<times> coord_event list" where
  "executeDownload meta segments io =
     (case open_part_err io of
        Some e \<Rightarrow> (Some (''failed to create part file: '' @ e), [OpenPartFile])
      | None \<Rightarrow>
     (case truncate_err io of
        Some e \<Rightarrow> (Some (''failed to set part file size: '' @ e),
                   [OpenPartFile, TruncatePartFile, ClosePartFile])
      | None \<Rightarrow>
          let completedSegments = int (length (filter SegmentInfo.Completed segments));
              expectedSegments = int (length segments)
          in (case result_loop completedSegments expectedSegments (results io) of
                (Some e, tr) \<Rightarrow>
                  (Some e, [OpenPartFile, TruncatePartFile, StartWorkers] @ tr @ deferred_calls)
              | (None, tr) \<Rightarrow>
                  (case rename_err io of
                     Some e \<Rightarrow>
                       (Some (''failed to rename part file to final file: '' @ e),
                        [OpenPartFile, TruncatePartFile, StartWorkers] @ tr @ [AtomicRename]
                        @ deferred_calls)
                   | None \<Rightarrow>
                       (None,
                        [OpenPartFile, TruncatePartFile, StartWorkers] @ tr @ [AtomicRename]
                        @ deferred_calls)))))"

function executeDownloadWithRetry_loop ::
  "FileMetadata \<Rightarrow> download_env \<Rightarrow> int \<Rightarrow> SegmentInfo list
     \<Rightarrow> string option \<times> coord_event list" where
  "executeDownloadWithRetry_loop meta env attempt segments =
     (let maxGlobalRetries = 3 in
      if attempt < maxGlobalRetries then
        (case executeDownload meta segments (attempt_ios env attempt) of
           (None, tr) \<Rightarrow> (None, tr)
         | (Some e, tr) \<Rightarrow>
             if \<not> isRecoverableError (Some e) then (Some e, tr)
             else if attempt < maxGlobalRetries - 1 then
               (let segments1 = (case reloads env attempt of
                                   None \<Rightarrow> segments
                                 | Some resumeData \<Rightarrow> Segments resumeData)
                in case executeDownloadWithRetry_loop meta env (attempt + 1) segments1 of
                     (err, tr1) \<Rightarrow>
                       (err, tr @ [ReloadSegments, Backoff (2 ^ nat attempt)] @ tr1))
             else
               (case executeDownloadWithRetry_loop meta env (attempt + 1) segments of
                  (err, tr1) \<Rightarrow> (err, tr @ tr1)))
      else (Some (''download failed after '' @ dec maxGlobalRetries @ '' attempts''), []))"
  by pat_completeness auto
termination
  by (relation "measure (\<lambda>(meta, env, attempt, segments). nat (3 - attempt))") auto

declare executeDownloadWithRetry_loop.simps [simp del]

definition executeDownloadWithRetry ::
  "FileMetadata \<Rightarrow> SegmentInfo list \<Rightarrow> download_env \<Rightarrow> string option \<times> coord_event list" where
  "executeDownloadWithRetry meta segments env = executeDownloadWithRetry_loop meta env 0 segments"

definition verifyFileIntegrity :: "download_env \<Rightarrow> int \<Rightarrow> string option" where
  "verifyFileIntegrity env expectedSize =
     (case file_size env of
        Inl e \<Rightarrow> Some (''failed to get file size: '' @ e)
      | Inr actualSize \<Rightarrow>
          if actualSize \<noteq> expectedSize then
            Some (''file size mismatch: expected '' @ dec expectedSize @ '' bytes, got ''
                  @ dec actualSize @ '' bytes'')
          else None)"

text \<open>
  \<open>Download\<close>; \<open>now\<close> is the clock read by \<open>ValidateResumeCompatibility\<close>. Planning errors
  are reported by their kind.
\<close>

datatype download_error = DownloadFailed string | PlanFailed plan_error

definition Download ::
  "DownloadPlanner \<Rightarrow> download_env \<Rightarrow> int \<Rightarrow> FileMetadata option \<Rightarrow> DownloadConfig option
     \<Rightarrow> download_error option \<times> coord_event list" where
  "Download p env now meta0 config0 =
     (case meta0 of
        None \<Rightarrow> (Some (DownloadFailed ''file metadata cannot be nil''), [])
      | Some meta \<Rightarrow>
     (case config0 of
        None \<Rightarrow> (Some (DownloadFailed ''download config cannot be nil''), [])
      | Some config \<Rightarrow>
     (case ensure_dir_err env of
        Some e \<Rightarrow> (Some (DownloadFailed (''failed to create output directory: '' @ e)),
                   [EnsureDir])
      | None \<Rightarrow>
          let resumeData0 = (case detect env of DetectFound r \<Rightarrow> Some r | _ \<Rightarrow> None);
              valid = (case resumeData0 of
                         None \<Rightarrow> False
                       | Some r \<Rightarrow> ValidateResumeCompatibility p r meta now = None);
              resumeData = (if valid then resumeData0 else None);
              ev1 = [EnsureDir, DetectResume]
                    @ (if resumeData0 \<noteq> None \<and> \<not> valid then [RemoveStaleResume] else []);
              config1 = (if valid then config \<lparr> ResumeData := resumeData \<rparr> else config);
              planned = (case resumeData of
                           Some r \<Rightarrow> Inr (Segments r)
                         | None \<Rightarrow> PlanDownload p (Some meta) (Some config1));
              ev2 = ev1 @ (if resumeData = None then [PlanSegments] else [])
          in (case planned of
                Inl pe \<Rightarrow> (Some (PlanFailed pe), ev2)
              | Inr segments \<Rightarrow>
                  let ev3 = ev2 @ [if resumeData = None then CreatePartFile else ValidatePartFile]
                  in (case part_file_err env of
                        Some e \<Rightarrow>
                          (Some (DownloadFailed
                                   ((if resumeData = None then ''failed to create part file: ''
                                     else ''failed to validate part file: '') @ e)), ev3)
                      | None \<Rightarrow>
                     (case save_err env of
                        Some e \<Rightarrow>
                          (Some (DownloadFailed (''failed to save resume metadata: '' @ e)),
                           ev3 @ [SaveResume])
                      | None \<Rightarrow>
                     (case executeDownloadWithRetry meta segments env of
                        (Some e, tr) \<Rightarrow>
                          (Some (DownloadFailed (''download failed: '' @ e)),
                           ev3 @ [SaveResume] @ tr)
                      | (None, tr) \<Rightarrow>
                     (case verifyFileIntegrity env (Size meta) of
                        Some e \<Rightarrow>
                          (Some (DownloadFailed
                                   (''file integrity verification failed: '' @ e)),
                           ev3 @ [SaveResume] @ tr @ [VerifyIntegrity])
                      | None \<Rightarrow>
                          (None, ev3 @ [SaveResume] @ tr
                                 @ [VerifyIntegrity, CleanupResumeMetadata])))))))))"

text \<open>\<open>a\<close> occurs in the trace before the first \<open>b\<close>.\<close>

definition precedes :: "coord_event \<Rightarrow> coord_event \<Rightarrow> coord_event list \<Rightarrow> bool" where
  "precedes a b tr = (a \<in> set (takeWhile (\<lambda>e. e \<noteq> b) tr))"

text \<open>A run in which the single segment of a 10-byte file arrives completed.\<close>

definition env_success :: download_env where
  "env_success =
     \<lparr> ensure_dir_err = None, detect = DetectNothing, part_file_err = None, save_err = None,
       attempt_ios = (\<lambda>k. \<lparr> open_part_err = None, truncate_err = None,
                              results = [\<lparr> SegmentIndex = 0, BytesWritten = 10, Error = None,
                                           Completed' = True \<rparr>],
                              rename_err = None \<rparr>),
       reloads = (\<lambda>k. None), file_size = Inr 10, cleanup_err = None \<rparr>"

definition meta10 :: FileMetadata where
  "meta10 = \<lparr> Filename = ''a.bin'', Size = 10, DirectURL = ''http://h/a'', ShareID = ''s'',
              Timestamp = 0, Checksum = [] \<rparr>"

definition config10 :: DownloadConfig where
  "config10 = \<lparr> OutputPath = ''a.bin'', Threads = 2, RateLimit = 0, ProxyURL = [],
                Quiet = True, ResumeData = None \<rparr>"

section \<open>Resume metadata on disk\<close>

text \<open>
  The file system is a map from paths to nodes. A \<open>Regular\<close> node carries the data of the
  file and its size; for a path that is \<open>Broken\<close>, \<open>os.Stat\<close> fails with an error other
  than "not exist" and the file cannot be read or removed. \<open>os.Remove\<close> of a regular file
  succeeds. The JSON encoding of the standard library is a parameter: \<open>marshal\<close> is
  \<open>json.MarshalIndent\<close> and \<open>unmarshal\<close> is \<open>json.Unmarshal\<close> into a fresh
  \<open>ResumeMetadata\<close>, both failing with \<open>None\<close>. Whether \<open>os.MkdirAll\<close> and
  \<open>os.WriteFile\<close> fail for a path is given by the environment.
\<close>

datatype 'b node = Absent | Regular 'b int | Broken

record 'b json_codec =
  marshal :: "ResumeMetadata \<Rightarrow> 'b option"
  unmarshal :: "'b \<Rightarrow> ResumeMetadata option"
  data_len :: "'b \<Rightarrow> int"


datatype resume_error =
    MkdirFailed
  | MarshalFailed
  | WriteFailed
  | MetadataNotFound
  | ReadFailed
  | UnmarshalFailed
  | InvalidMetadataCleanedUp resume_error
  | StatPartFailed
  | PartExceedsExpectedCleanedUp

definition ResumeMetadataExt :: string where
  "ResumeMetadataExt = ''.terafetch.json''"


definition LoadResumeMetadata ::
  "'b json_codec \<Rightarrow> (string \<Rightarrow> 'b node) \<Rightarrow> string \<Rightarrow> resume_error + ResumeMetadata" where
  "LoadResumeMetadata codec fs outputPath =
     (let metadataPath = outputPath @ ResumeMetadataExt
      in case fs metadataPath of
           Absent \<Rightarrow> Inl MetadataNotFound
         | Broken \<Rightarrow> Inl ReadFailed
         | Regular data n \<Rightarrow>
             (case unmarshal codec data of
                None \<Rightarrow> Inl UnmarshalFailed
              | Some resumeData \<Rightarrow> Inr resumeData))"

definition os_remove :: "(string \<Rightarrow> 'b node) \<Rightarrow> string \<Rightarrow> (string \<Rightarrow> 'b node)" where
  "os_remove fs path = (case fs path of Regular data n \<Rightarrow> fs (path := Absent) | _ \<Rightarrow> fs)"

text \<open>
  What \<open>DetectResumableDownload\<close> does: it returns \<open>(nil, nil)\<close>, a record, or an error, or
  it panics on the nil pointer when the parsed metadata has no \<open>file_metadata\<close>.
\<close>

datatype detect_outcome =
    NoResume
  | Resume ResumeMetadata
  | DetectError resume_error
  | NilPointerPanic

definition DetectResumableDownload ::
  "'b json_codec \<Rightarrow> (string \<Rightarrow> 'b node) \<Rightarrow> string \<Rightarrow> detect_outcome \<times> (string \<Rightarrow> 'b node)" where
  "DetectResumableDownload codec fs outputPath =
     (let metadataPath = outputPath @ ResumeMetadataExt;
          partPath = outputPath @ ''.part''
      in if fs metadataPath = Absent then (NoResume, fs)
         else if fs partPath = Absent then (NoResume, os_remove fs metadataPath)
         else
           (case LoadResumeMetadata codec fs outputPath of
              Inl err \<Rightarrow>
                (DetectError (InvalidMetadataCleanedUp err),
                 os_remove (os_remove fs metadataPath) partPath)
            | Inr resumeData \<Rightarrow>
                (case fs partPath of
                   Regular pdata partSize \<Rightarrow>
                     (case FileMeta resumeData of
                        None \<Rightarrow> (NilPointerPanic, fs)
                      | Some fm \<Rightarrow>
                          let expectedSize = Size fm
                          in if partSize > expectedSize then
                               (DetectError PartExceedsExpectedCleanedUp,
                                os_remove (os_remove fs metadataPath) partPath)
                             else (Resume resumeData, fs))
                 | _ \<Rightarrow> (DetectError StatPartFailed, fs))))"


text \<open>A codec that stores the record itself, and an environment without faults.\<close>

definition record_codec :: "ResumeMetadata json_codec" where
  "record_codec = \<lparr> marshal = Some, unmarshal = Some, data_len = (\<lambda>r. 100) \<rparr>"


definition resume10 :: ResumeMetadata where
  "resume10 = \<lparr> FileMeta = Some meta10,
                Segments = [\<lparr> Index = 0, Start = 0, End = 9, Completed = False, Retries = 0 \<rparr>],
                CreatedAt = 1, LastUpdate = 2 \<rparr>"

definition out10 :: string where
  "out10 = ''a.bin''"

definition fs_resumable :: "string \<Rightarrow> ResumeMetadata node" where
  "fs_resumable =
     ((\<lambda>p. Absent) (''a.bin.terafetch.json'' := Regular resume10 100))
       (''a.bin.part'' := Regular resume10 10)"

section \<open>Lemmas about the segment loop\<close>

lemma segment_loop_step:
  "i < n \<Longrightarrow> segment_loop i n ss fs acc = segment_loop (i + 1) n ss fs (acc @ [mk_seg i n ss fs])"
  by (subst segment_loop.simps) (simp add: mk_seg_def Let_def)

lemma segment_loop_exit: "\<not> i < n \<Longrightarrow> segment_loop i n ss fs acc = acc"
  by (subst segment_loop.simps) simp

lemma segment_loop_acc:
  "segment_loop i n ss fs acc = acc @ segment_loop i n ss fs []"
proof (induction "nat (n - i)" arbitrary: i acc)
  case 0
  then have "\<not> i < n" by simp
  then show ?case by (simp add: segment_loop_exit)
next
  case (Suc k)
  then have lt: "i < n" and k: "k = nat (n - (i + 1))" by simp_all
  have a: "segment_loop i n ss fs acc = segment_loop (i + 1) n ss fs (acc @ [mk_seg i n ss fs])"
    by (rule segment_loop_step[OF lt])
  have b: "segment_loop (i + 1) n ss fs (acc @ [mk_seg i n ss fs])
           = (acc @ [mk_seg i n ss fs]) @ segment_loop (i + 1) n ss fs []"
    by (rule Suc.hyps(1)[OF k])
  have c: "segment_loop i n ss fs [] = segment_loop (i + 1) n ss fs ([] @ [mk_seg i n ss fs])"
    by (rule segment_loop_step[OF lt])
  have d: "segment_loop (i + 1) n ss fs ([] @ [mk_seg i n ss fs])
           = ([] @ [mk_seg i n ss fs]) @ segment_loop (i + 1) n ss fs []"
    by (rule Suc.hyps(1)[OF k])
  show ?case
    unfolding a b c d by simp
qed

lemma segment_loop_cons:
  assumes "i < n"
  shows "segment_loop i n ss fs [] = mk_seg i n ss fs # segment_loop (i + 1) n ss fs []"
proof -
  have "segment_loop i n ss fs [] = segment_loop (i + 1) n ss fs ([] @ [mk_seg i n ss fs])"
    by (rule segment_loop_step[OF assms])
  also have "\<dots> = ([] @ [mk_seg i n ss fs]) @ segment_loop (i + 1) n ss fs []"
    by (rule segment_loop_acc)
  finally show ?thesis by simp
qed

lemma segment_loop_ok:
  assumes "0 \<le> i" "i < n" "1 \<le> ss" "n * ss \<le> fs"
  shows "loop_ok i ss fs (segment_loop i n ss fs [])"
  using assms
proof (induction "nat (n - i)" arbitrary: i)
  case 0
  then show ?case by simp
next
  case (Suc k)
  show ?case
  proof (cases "i = n - 1")
    case True
    have "(n - 1) * ss \<le> fs - 1"
      using Suc.prems(3,4) by (simp add: algebra_simps)
    then show ?thesis
      using True
      by (simp add: segment_loop_cons segment_loop_exit loop_ok_def mk_seg_def seg_len_def)
  next
    case False
    then have lt: "i + 1 < n" using Suc.prems(2) by simp
    have k: "k = nat (n - (i + 1))" using Suc.hyps(2) by simp
    have ih: "loop_ok (i + 1) ss fs (segment_loop (i + 1) n ss fs [])"
      using Suc.hyps(1)[OF k] Suc.prems lt by simp
    have ne: "segment_loop (i + 1) n ss fs [] \<noteq> []"
      using ih by (simp add: loop_ok_def)
    show ?thesis
      using ih False ne Suc.prems(2,3)
      by (simp add: segment_loop_cons loop_ok_def mk_seg_def seg_len_def algebra_simps)
  qed
qed

lemma go_div_pos: "0 \<le> a \<Longrightarrow> 0 < b \<Longrightarrow> go_div a b = a div b"
  by (cases "a = 0") (simp_all add: go_div_def)

lemma mult_div_le_self: "0 < (b::int) \<Longrightarrow> b * (a div b) \<le> a"
proof -
  assume b: "0 < b"
  have "0 \<le> a mod b" using b by simp
  moreover have "b * (a div b) + a mod b = a" by simp
  ultimately show ?thesis by linarith
qed

lemma last_end_nonempty: "xs \<noteq> [] \<Longrightarrow> last_end d xs = End (last xs)"
  by (cases xs) (simp_all add: last_end_def)

lemma CalculateSegments_partitions_file:
  assumes "0 \<le> fileSize"
  shows "partitions_file fileSize (CalculateSegments NewDownloadPlanner fileSize threads)"
proof -
  let ?p = NewDownloadPlanner
  let ?M = "1048576::int"
  have pm: "minSegmentSize ?p = ?M" "maxThreads ?p = 32"
    by (simp_all add: NewDownloadPlanner_def MinSegmentSize_def MaxThreads_def)
  consider (zero) "fileSize = 0" | (small) "0 < fileSize" "fileSize < ?M" | (big) "?M \<le> fileSize"
    using assms by linarith
  then show ?thesis
  proof cases
    case zero
    then show ?thesis
      by (simp add: CalculateSegments_def partitions_file_def last_end_def MinSegmentSize_def)
  next
    case small
    then show ?thesis
      by (simp add: CalculateSegments_def partitions_file_def last_end_def MinSegmentSize_def
          pm seg_len_def Let_def)
  next
    case big
    define t2 :: int where
      "t2 = (let t1 = (if threads \<le> 0 then 1 else threads) in if t1 > 32 then 32 else t1)"
    have t2: "1 \<le> t2" "t2 \<le> 32" by (simp_all add: t2_def Let_def)
    define s0 where "s0 = fileSize div t2"
    define t3 where "t3 = (if s0 < ?M then (let tc = fileSize div ?M in if tc = 0 then 1 else tc) else t2)"
    define ss where "ss = (if s0 < ?M then fileSize div t3 else s0)"
    have calc: "CalculateSegments ?p fileSize threads = segment_loop 0 t3 ss fileSize []"
      using big
      by (simp add: CalculateSegments_def pm Let_def go_div_pos t2_def s0_def t3_def ss_def)
    have t3: "1 \<le> t3"
    proof (cases "s0 < ?M")
      case True
      have "1 \<le> fileSize div ?M" using big by (simp add: pos_imp_zdiv_pos_iff)
      then show ?thesis using True by (simp add: t3_def Let_def)
    next
      case False then show ?thesis using t2 by (simp add: t3_def)
    qed
    have ss_eq: "ss = fileSize div t3" by (simp add: ss_def t3_def s0_def)
    have t3M: "t3 * ?M \<le> fileSize"
    proof (cases "s0 < ?M")
      case True
      have "1 \<le> fileSize div ?M" using big by (simp add: pos_imp_zdiv_pos_iff)
      then have "t3 = fileSize div ?M" using True by (simp add: t3_def Let_def)
      then show ?thesis by (simp add: algebra_simps)
    next
      case False
      then have "?M \<le> fileSize div t2" "t3 = t2" by (simp_all add: s0_def t3_def)
      then have "t2 * ?M \<le> t2 * (fileSize div t2)" using t2 by (simp add: mult_left_mono)
      also have "\<dots> \<le> fileSize" using t2 by (intro mult_div_le_self) simp
      finally show ?thesis using \<open>t3 = t2\<close> by (simp add: algebra_simps)
    qed
    have ssM: "?M \<le> ss"
    proof -
      have "(t3 * ?M) div t3 \<le> fileSize div t3"
        using t3 t3M by (intro zdiv_mono1) simp_all
      moreover have "(t3 * ?M) div t3 = ?M" using t3 by simp
      ultimately show ?thesis by (simp add: ss_eq)
    qed
    have t3ss: "t3 * ss \<le> fileSize"
      unfolding ss_eq using t3 by (intro mult_div_le_self) simp
    have ok: "loop_ok 0 ss fileSize (segment_loop 0 t3 ss fileSize [])"
      using segment_loop_ok[of 0 t3 ss fileSize] t3 ssM t3ss by simp
    have mono: "list_all (\<lambda>x. seg_len x = ss) xs \<Longrightarrow> list_all (\<lambda>x. ?M \<le> seg_len x) xs" for xs
      using ssM by (induction xs) simp_all
    show ?thesis
      using ok big mono[of "butlast (segment_loop 0 t3 ss fileSize [])"]
      by (simp add: calc partitions_file_def loop_ok_def last_end_nonempty MinSegmentSize_def)
  qed
qed


section \<open>Claims about the segment planner\<close>

text \<open>
  C1. For every file size \<open>\<ge> 0\<close> and every requested thread count, the segments returned by
  \<open>CalculateSegments\<close>, and by \<open>PlanDownload\<close> when no resume data is set, partition
  \<open>[0, size)\<close> contiguously in index order: the first starts at 0, each next one starts at
  the previous end plus 1, the last ends at \<open>size - 1\<close>, the lengths sum to \<open>size\<close>, every
  segment but the last has length at least \<open>MinSegmentSize\<close> when \<open>size \<ge> MinSegmentSize\<close>,
  and the list is empty when \<open>size = 0\<close>.
\<close>

theorem C1_segments_partition_file:
  assumes "0 \<le> Size meta" and "ResumeData config = None"
  shows "partitions_file (Size meta) (CalculateSegments NewDownloadPlanner (Size meta) threads)
         \<and> (\<exists>segs. PlanDownload NewDownloadPlanner (Some meta) (Some config) = Inr segs
                    \<and> partitions_file (Size meta) segs)"
  using assms by (simp add: PlanDownload_def CalculateSegments_partitions_file)

theorem C1_segments_partition_file_witness:
  "partitions_file 2621440 (CalculateSegments NewDownloadPlanner 2621440 8)
   \<and> (\<exists>segs. PlanDownload NewDownloadPlanner
          (Some \<lparr> Filename = ''a.bin'', Size = 2621440, DirectURL = ''u'', ShareID = ''s'',
                  Timestamp = 0, Checksum = [] \<rparr>)
          (Some \<lparr> OutputPath = ''a.bin'', Threads = 8, RateLimit = 0, ProxyURL = [],
                  Quiet = True, ResumeData = None \<rparr>) = Inr segs
        \<and> partitions_file 2621440 segs)"
  using C1_segments_partition_file
    [of "\<lparr> Filename = ''a.bin'', Size = 2621440, DirectURL = ''u'', ShareID = ''s'',
           Timestamp = 0, Checksum = [] \<rparr>"
        "\<lparr> OutputPath = ''a.bin'', Threads = 8, RateLimit = 0, ProxyURL = [],
           Quiet = True, ResumeData = None \<rparr>" 8]
  by simp

text \<open>
  C6. Planning with resume data fails exactly when the resume record has no file metadata,
  or its size differs from the current size, or its filename differs from the current
  filename; otherwise it returns the stored segments unchanged. \<open>PlanDownload\<close> with resume
  data set is exactly \<open>planResumeDownload\<close>.
\<close>

theorem C6_plan_resume_fails_iff:
  "(isl (planResumeDownload p r cur) \<longleftrightarrow>
      (case FileMeta r of None \<Rightarrow> True
       | Some fm \<Rightarrow> Size fm \<noteq> Size cur \<or> Filename fm \<noteq> Filename cur))
   \<and> (\<not> isl (planResumeDownload p r cur) \<longrightarrow> planResumeDownload p r cur = Inr (Segments r))
   \<and> (ResumeData c = Some r \<longrightarrow>
        PlanDownload p (Some cur) (Some c) = planResumeDownload p r cur)"
  by (simp add: planResumeDownload_def PlanDownload_def split: option.splits)

theorem C6_plan_resume_fails_iff_witness:
  "\<not> isl (planResumeDownload NewDownloadPlanner
      \<lparr> FileMeta = Some \<lparr> Filename = ''a.bin'', Size = 10, DirectURL = ''u'', ShareID = ''s'',
                            Timestamp = 0, Checksum = [] \<rparr>,
        Segments = [\<lparr> Index = 0, Start = 0, End = 9, Completed = True, Retries = 2 \<rparr>],
        CreatedAt = 1, LastUpdate = 2 \<rparr>
      \<lparr> Filename = ''a.bin'', Size = 10, DirectURL = ''v'', ShareID = ''s'',
        Timestamp = 5, Checksum = [] \<rparr>)
   \<and> PlanDownload NewDownloadPlanner
      (Some \<lparr> Filename = ''a.bin'', Size = 10, DirectURL = ''v'', ShareID = ''s'',
              Timestamp = 5, Checksum = [] \<rparr>)
      (Some \<lparr> OutputPath = ''a.bin'', Threads = 4, RateLimit = 0, ProxyURL = [], Quiet = True,
              ResumeData = Some
                \<lparr> FileMeta = Some \<lparr> Filename = ''a.bin'', Size = 10, DirectURL = ''u'',
                                      ShareID = ''s'', Timestamp = 0, Checksum = [] \<rparr>,
                  Segments = [\<lparr> Index = 0, Start = 0, End = 9, Completed = True, Retries = 2 \<rparr>],
                  CreatedAt = 1, LastUpdate = 2 \<rparr> \<rparr>)
     = Inr [\<lparr> Index = 0, Start = 0, End = 9, Completed = True, Retries = 2 \<rparr>]"
  using C6_plan_resume_fails_iff
    [of NewDownloadPlanner
        "\<lparr> FileMeta = Some \<lparr> Filename = ''a.bin'', Size = 10, DirectURL = ''u'', ShareID = ''s'',
                              Timestamp = 0, Checksum = [] \<rparr>,
          Segments = [\<lparr> Index = 0, Start = 0, End = 9, Completed = True, Retries = 2 \<rparr>],
          CreatedAt = 1, LastUpdate = 2 \<rparr>"
        "\<lparr> Filename = ''a.bin'', Size = 10, DirectURL = ''v'', ShareID = ''s'',
          Timestamp = 5, Checksum = [] \<rparr>"
        "\<lparr> OutputPath = ''a.bin'', Threads = 4, RateLimit = 0, ProxyURL = [], Quiet = True,
          ResumeData = Some
            \<lparr> FileMeta = Some \<lparr> Filename = ''a.bin'', Size = 10, DirectURL = ''u'',
                                  ShareID = ''s'', Timestamp = 0, Checksum = [] \<rparr>,
              Segments = [\<lparr> Index = 0, Start = 0, End = 9, Completed = True, Retries = 2 \<rparr>],
              CreatedAt = 1, LastUpdate = 2 \<rparr> \<rparr>"]
  by simp

text \<open>
  C10. \<open>IsDownloadComplete\<close> is true exactly when the list is non-empty and every segment is
  completed; the empty plan of a zero-size file is therefore not complete.
\<close>

theorem C10_IsDownloadComplete_iff:
  "(IsDownloadComplete p segments \<longleftrightarrow> segments \<noteq> [] \<and> list_all Completed segments)
   \<and> \<not> IsDownloadComplete p (CalculateSegments q 0 threads)"
proof -
  have "all_completed_loop xs = list_all Completed xs" for xs
    by (induction xs) simp_all
  then show ?thesis
    by (simp add: IsDownloadComplete_def CalculateSegments_def)
qed

theorem C10_IsDownloadComplete_iff_witness:
  "IsDownloadComplete NewDownloadPlanner
     [\<lparr> Index = 0, Start = 0, End = 9, Completed = True, Retries = 0 \<rparr>]
   \<and> \<not> IsDownloadComplete NewDownloadPlanner
     [\<lparr> Index = 0, Start = 0, End = 9, Completed = True, Retries = 0 \<rparr>,
      \<lparr> Index = 1, Start = 10, End = 19, Completed = False, Retries = 0 \<rparr>]
   \<and> \<not> IsDownloadComplete NewDownloadPlanner (CalculateSegments NewDownloadPlanner 0 4)"
  using C10_IsDownloadComplete_iff
      [of NewDownloadPlanner "[\<lparr> Index = 0, Start = 0, End = 9, Completed = True, Retries = 0 \<rparr>]"
          NewDownloadPlanner 4]
    C10_IsDownloadComplete_iff
      [of NewDownloadPlanner
          "[\<lparr> Index = 0, Start = 0, End = 9, Completed = True, Retries = 0 \<rparr>,
            \<lparr> Index = 1, Start = 10, End = 19, Completed = False, Retries = 0 \<rparr>]"
          NewDownloadPlanner 4]
  by simp

section \<open>Lemmas about the rate limiter\<close>

lemma trunc_scaled_le:
  assumes "0 \<le> n" "0 \<le> f" "f \<le> 1"
  shows "trunc_int (real_of_int n * f) \<le> n"
proof -
  have "real_of_int n * f \<le> real_of_int n"
    using assms by (simp add: mult_left_le)
  moreover have "0 \<le> real_of_int n * f" using assms by simp
  ultimately show ?thesis by (simp add: trunc_int_def floor_le_iff)
qed

lemma apply_adjustment_inv:
  "limiter_inv r \<Longrightarrow> 0 < f \<Longrightarrow> f \<le> 1 \<Longrightarrow> limiter_inv (apply_adjustment r f t)"
  by (simp add: limiter_inv_def apply_adjustment_def Let_def trunc_scaled_le)

lemma adjust_inv: "limiter_inv r \<Longrightarrow> limiter_inv (adjustRateBasedOnPerformance r a b)"
proof -
  assume inv: "limiter_inv r"
  then have f: "0 < adjustmentFactor r" "adjustmentFactor r \<le> 1"
    by (simp_all add: limiter_inv_def)
  have a: "limiter_inv (apply_adjustment r (adjustmentFactor r * (9 / 10)) b)"
    using f by (intro apply_adjustment_inv inv) simp_all
  have b: "limiter_inv (apply_adjustment r
              (if adjustmentFactor r * (105 / 100) > 1 then 1 else adjustmentFactor r * (105 / 100)) b)"
    using f by (intro apply_adjustment_inv inv) simp_all
  show ?thesis
    unfolding adjustRateBasedOnPerformance_def Let_def
    using inv a b by (simp only: if_split) blast
qed

lemma inv_networkStats [simp]: "limiter_inv (r\<lparr>networkStats := ns\<rparr>) = limiter_inv r"
  by (simp add: limiter_inv_def)

lemma inv_bucket [simp]: "limiter_inv (r\<lparr>bucket := b\<rparr>) = limiter_inv r"
  by (simp add: limiter_inv_def)

lemma inv_lastUpdate [simp]: "limiter_inv (r\<lparr>lastUpdate := t\<rparr>) = limiter_inv r"
  by (simp add: limiter_inv_def)

lemma update_inv: "limiter_inv r \<Longrightarrow> limiter_inv (UpdateNetworkStats r x d a b c)"
  by (simp add: UpdateNetworkStats_def Let_def adjust_inv)

lemma wait_inv: "limiter_inv r \<Longrightarrow> limiter_inv (snd (Wait r n a b c d e f g))"
  by (simp add: Wait_def Let_def update_inv)

lemma setrate_inv: "0 \<le> bps \<Longrightarrow> limiter_inv r \<Longrightarrow> limiter_inv (SetRate r bps)"
  by (simp add: limiter_inv_def SetRate_def Let_def)

lemma step_inv: "sets_rate_within bound c \<Longrightarrow> limiter_inv r \<Longrightarrow> limiter_inv (limiter_step r c)"
  by (cases c) (simp_all add: wait_inv setrate_inv update_inv, simp_all add: limiter_inv_def RegisterThread_def UnregisterThread_def)

lemma run_inv: "list_all (sets_rate_within bound) cs \<Longrightarrow> limiter_inv r \<Longrightarrow> limiter_inv (limiter_run r cs)"
  unfolding limiter_run_def
  by (induction cs arbitrary: r) (auto intro: step_inv)

lemma new_limiter_inv: "0 \<le> bps \<Longrightarrow> limiter_inv (NewTokenBucketLimiter bps t1 t2 t3)"
  by (simp add: limiter_inv_def NewTokenBucketLimiter_def)


lemmas limiter_eval = limiter_run_def NewTokenBucketLimiter_def SetRate_def RegisterThread_def
  UnregisterThread_def UpdateNetworkStats_def adjustRateBasedOnPerformance_def apply_adjustment_def
  Wait_def calculateEffectiveRate_def ratio_less_def ratio_greater_def trunc_int_def seconds_def
  wrap32_def go_div_def Let_def

section \<open>Claims about the rate limiter\<close>




text \<open>
  C9, as the code has it. When the rate given to the constructor and every rate given to
  \<open>SetRate\<close> lies between 0 and \<open>2^53\<close> (the range in which an \<open>int64\<close> converts to
  \<open>float64\<close> exactly), then after any sequence of \<open>Wait\<close>, \<open>SetRate\<close>, \<open>RegisterThread\<close>,
  \<open>UnregisterThread\<close> and \<open>UpdateNetworkStats\<close> calls the active rate is at most the
  original rate, and the adjustment factor is positive and at most 1.
\<close>

theorem C9_rate_never_exceeds_original:
  assumes "0 \<le> bps" and "bps \<le> 2 ^ 53"
    and "list_all (sets_rate_within (2 ^ 53)) calls"
  shows "rate (limiter_run (NewTokenBucketLimiter bps t1 t2 t3) calls)
           \<le> originalRate (limiter_run (NewTokenBucketLimiter bps t1 t2 t3) calls)
         \<and> 0 < adjustmentFactor (limiter_run (NewTokenBucketLimiter bps t1 t2 t3) calls)
         \<and> adjustmentFactor (limiter_run (NewTokenBucketLimiter bps t1 t2 t3) calls) \<le> 1"
proof -
  have "limiter_inv (limiter_run (NewTokenBucketLimiter bps t1 t2 t3) calls)"
    using assms by (intro run_inv[where bound = "2 ^ 53"] new_limiter_inv)
  then show ?thesis by (simp add: limiter_inv_def)
qed

theorem C9_rate_never_exceeds_original_witness:
  "rate (limiter_run (NewTokenBucketLimiter 1000 0 0 0)
        [CallSetRate 2000, CallRegisterThread,
         CallUpdateNetworkStats 100 1000000000 1 1 1,
         CallUpdateNetworkStats 100 1000000000 2 2 2,
         CallUpdateNetworkStats 100 1000000000 6000000000 6000000000 6000000001,
         CallWait 500 6000000002 6000000003 6000000004 False 6000000005 6000000006 6000000007,
         CallUnregisterThread]) = 1800
   \<and> originalRate (limiter_run (NewTokenBucketLimiter 1000 0 0 0)
        [CallSetRate 2000, CallRegisterThread,
         CallUpdateNetworkStats 100 1000000000 1 1 1,
         CallUpdateNetworkStats 100 1000000000 2 2 2,
         CallUpdateNetworkStats 100 1000000000 6000000000 6000000000 6000000001,
         CallWait 500 6000000002 6000000003 6000000004 False 6000000005 6000000006 6000000007,
         CallUnregisterThread]) = 2000"
  using C9_rate_never_exceeds_original [of 1000 
        "[CallSetRate 2000, CallRegisterThread,
         CallUpdateNetworkStats 100 1000000000 1 1 1,
         CallUpdateNetworkStats 100 1000000000 2 2 2,
         CallUpdateNetworkStats 100 1000000000 6000000000 6000000000 6000000001,
         CallWait 500 6000000002 6000000003 6000000004 False 6000000005 6000000006 6000000007,
         CallUnregisterThread]" 0 0 0]
  by (simp add: limiter_eval)

text \<open>
  The claim C9 as it is written fails for a negative rate: after \<open>SetRate(-5)\<close> and three
  slow measurements five seconds apart the factor is 0.9 and the rate is
  \<open>int64(-5 * 0.9) = -4\<close>, above the original rate \<open>-5\<close>, while the factor is still at
  most 1.
\<close>

theorem C9_negative_rate_counterexample:
  "\<not> rate (limiter_run (NewTokenBucketLimiter 1000 0 0 0)
        [CallSetRate (- 5),
         CallUpdateNetworkStats 100 1000000000 1 1 1,
         CallUpdateNetworkStats 100 1000000000 2 2 2,
         CallUpdateNetworkStats 100 1000000000 6000000000 6000000000 6000000001])
     \<le> originalRate (limiter_run (NewTokenBucketLimiter 1000 0 0 0)
        [CallSetRate (- 5),
         CallUpdateNetworkStats 100 1000000000 1 1 1,
         CallUpdateNetworkStats 100 1000000000 2 2 2,
         CallUpdateNetworkStats 100 1000000000 6000000000 6000000000 6000000001])
   \<and> adjustmentFactor (limiter_run (NewTokenBucketLimiter 1000 0 0 0)
        [CallSetRate (- 5),
         CallUpdateNetworkStats 100 1000000000 1 1 1,
         CallUpdateNetworkStats 100 1000000000 2 2 2,
         CallUpdateNetworkStats 100 1000000000 6000000000 6000000000 6000000001]) \<le> 1"
  by (simp add: limiter_eval)

section \<open>Lemmas about the retry loop\<close>






section \<open>Claims about the HTTP transport\<close>




section \<open>Lemmas about the segment download\<close>

lemma copy_iteration_bounds:
  assumes "totalWritten < maxBytes"
    and "copy_iteration hasLimiter maxBytes totalWritten st = (total1, ex)"
  shows "totalWritten \<le> total1 \<and> total1 \<le> maxBytes"
proof -
  define n where "n = max 0 (min (read_n st) (if 32 * 1024 > maxBytes - totalWritten
                                               then maxBytes - totalWritten else 32 * 1024))"
  define written where "written = (if n > 0 then max 0 (min (write_n st) n) else 0)"
  have n: "0 \<le> n" "n \<le> maxBytes - totalWritten"
    using assms(1) by (auto simp add: n_def)
  have w: "0 \<le> written" "written \<le> n"
    using n by (auto simp add: written_def)
  have "fst (copy_iteration hasLimiter maxBytes totalWritten st) = totalWritten
        \<or> fst (copy_iteration hasLimiter maxBytes totalWritten st) = totalWritten + written"
    unfolding copy_iteration_def Let_def n_def[symmetric] written_def[symmetric]
    by (simp split: option.split read_error.split)
  then have "total1 = totalWritten \<or> total1 = totalWritten + written"
    using assms(2) by simp
  then show ?thesis using n w by auto
qed

lemma copy_iteration_not_max:
  "snd (copy_iteration hasLimiter maxBytes totalWritten st) \<noteq> Some ReachedMax"
  by (simp add: copy_iteration_def Let_def split: option.split read_error.split)

lemma copy_loop_bounds:
  "copy_loop hasLimiter maxBytes totalWritten steps = (k, ex) \<Longrightarrow>
     totalWritten \<le> k
     \<and> (totalWritten < maxBytes \<longrightarrow> k \<le> maxBytes)
     \<and> (maxBytes \<le> totalWritten \<longrightarrow> k = totalWritten)
     \<and> (ex = ReachedMax \<longrightarrow> maxBytes \<le> k)"
proof (induction steps arbitrary: totalWritten)
  case Nil
  then show ?case by (auto split: if_splits)
next
  case (Cons st rest)
  show ?case
  proof (cases "totalWritten < maxBytes")
    case False
    with Cons.prems show ?thesis by simp
  next
    case True
    obtain total1 exo where it: "copy_iteration hasLimiter maxBytes totalWritten st = (total1, exo)"
      by (cases "copy_iteration hasLimiter maxBytes totalWritten st")
    have b: "totalWritten \<le> total1" "total1 \<le> maxBytes"
      using copy_iteration_bounds[OF True it] by simp_all
    show ?thesis
    proof (cases exo)
      case None
      then have "copy_loop hasLimiter maxBytes total1 rest = (k, ex)"
        using Cons.prems True it by simp
      from Cons.IH[OF this] b True show ?thesis by auto
    next
      case (Some e)
      then have "k = total1" "ex = e" using Cons.prems True it by simp_all
      moreover have "e \<noteq> ReachedMax"
        using it Some copy_iteration_not_max[of hasLimiter maxBytes totalWritten st] by auto
      ultimately show ?thesis using b True by simp
    qed
  qed
qed

lemma copy_success_count:
  assumes "copyWithRateLimit hasLimiter src maxBytes = (k, None)"
  shows "0 \<le> k \<and> k \<le> max 0 maxBytes
         \<and> (k < maxBytes \<longrightarrow> copy_loop hasLimiter maxBytes 0 src = (k, ReachedEOF))"
proof -
  obtain k' ex where cl: "copy_loop hasLimiter maxBytes 0 src = (k', ex)"
    by (cases "copy_loop hasLimiter maxBytes 0 src")
  then have "k' = k" and ne: "\<forall>e. ex \<noteq> CopyError e"
    using assms by (auto simp add: copyWithRateLimit_def split: copy_exit.splits)
  with cl copy_loop_bounds[OF cl] show ?thesis
    by (cases ex) auto
qed

lemma downloadSegment_failure_keeps_result:
  "downloadSegment hasLimiter job env result = (Some e, result1) \<Longrightarrow> result1 = result"
  by (auto simp add: downloadSegment_def split: option.splits sum.splits if_splits prod.splits)

lemma downloadSegment_success:
  assumes "downloadSegment hasLimiter job env result = (None, result1)"
  shows "\<exists>k. copyWithRateLimit hasLimiter (body env) (End (Segment job) - Start (Segment job) + 1)
               = (k, None)
             \<and> result1 = result \<lparr> BytesWritten := k \<rparr>"
  using assms
  by (auto simp add: downloadSegment_def split: option.splits sum.splits if_splits prod.splits)

lemma processJob_loop_outcome:
  assumes "0 \<le> attempt" "attempt < 3" "fresh result"
    and "res = processJob_loop hasLimiter job env cancel attempt result"
    and "N = End (Segment job) - Start (Segment job) + 1"
  shows "(Completed' res \<longleftrightarrow> Error res = None)
         \<and> (Completed' res \<longrightarrow>
               0 \<le> BytesWritten res \<and> BytesWritten res \<le> max 0 N
               \<and> (BytesWritten res < N \<longrightarrow>
                    (\<exists>a. attempt \<le> a \<and> a < 3
                       \<and> copy_loop hasLimiter N 0 (body (env a)) = (BytesWritten res, ReachedEOF))))"
  using assms
proof (induction "nat (3 - attempt)" arbitrary: attempt res)
  case 0
  then show ?case by simp
next
  case (Suc m)
  obtain err result1 where ds: "downloadSegment hasLimiter job (env attempt) result = (err, result1)"
    by (cases "downloadSegment hasLimiter job (env attempt) result")
  have fr: "\<not> Completed' result" "Error result = None"
    using Suc.prems(3) by (simp_all add: fresh_def)
  show ?case
  proof (cases err)
    case None
    obtain k where k: "copyWithRateLimit hasLimiter (body (env attempt)) N = (k, None)"
        "result1 = result \<lparr> BytesWritten := k \<rparr>"
      using downloadSegment_success ds None Suc.prems(5) by blast
    have res: "res = result \<lparr> BytesWritten := k, Completed' := True \<rparr>"
      unfolding Suc.prems(4)
      using Suc.prems(2) ds None k by (subst processJob_loop.simps) simp
    have c: "0 \<le> k" "k \<le> max 0 N"
        "k < N \<longrightarrow> copy_loop hasLimiter N 0 (body (env attempt)) = (k, ReachedEOF)"
      using copy_success_count[OF k(1)] by simp_all
    have "k < N \<longrightarrow> (\<exists>a. attempt \<le> a \<and> a < 3
              \<and> copy_loop hasLimiter N 0 (body (env a)) = (k, ReachedEOF))"
      using c(3) Suc.prems(2) by blast
    then show ?thesis
      using c(1,2) fr by (simp add: res)
  next
    case (Some e)
    have r1: "result1 = result" using downloadSegment_failure_keeps_result ds Some by blast
    show ?thesis
    proof (cases "\<not> isNetworkError (Some e) \<or> attempt = 2")
      case True
      have "res = result \<lparr> Error := Some e \<rparr>"
        unfolding Suc.prems(4)
        using Suc.prems(2) ds Some r1 True by (subst processJob_loop.simps) auto
      then show ?thesis using fr by simp
    next
      case False
      show ?thesis
      proof (cases "cancel attempt")
        case (Some ce)
        have "res = result \<lparr> Error := Some ce \<rparr>"
          unfolding Suc.prems(4)
          using Suc.prems(2) ds \<open>err = Some e\<close> r1 False Some by (subst processJob_loop.simps) auto
        then show ?thesis using fr by simp
      next
        case None
        have eq: "res = processJob_loop hasLimiter job env cancel (attempt + 1) result"
          unfolding Suc.prems(4)
          using Suc.prems(2) ds \<open>err = Some e\<close> r1 False None by (subst processJob_loop.simps) auto
        have m: "m = nat (3 - (attempt + 1))" using Suc.hyps(2) by simp
        have lt: "attempt + 1 < 3" "0 \<le> attempt + 1" using False Suc.prems by simp_all
        have ih: "(Completed' res \<longleftrightarrow> Error res = None)
            \<and> (Completed' res \<longrightarrow>
                  0 \<le> BytesWritten res \<and> BytesWritten res \<le> max 0 N
                  \<and> (BytesWritten res < N \<longrightarrow>
                       (\<exists>a. attempt + 1 \<le> a \<and> a < 3
                          \<and> copy_loop hasLimiter N 0 (body (env a)) = (BytesWritten res, ReachedEOF))))"
          by (rule Suc.hyps(1)[OF m lt(2) lt(1) Suc.prems(3) eq Suc.prems(5)])
        have weaken: "(\<exists>a. attempt + 1 \<le> a \<and> a < 3 \<and> Q a) \<Longrightarrow> (\<exists>a. attempt \<le> a \<and> a < 3 \<and> Q a)"
          for Q :: "int \<Rightarrow> bool"
        proof -
          assume "\<exists>a. attempt + 1 \<le> a \<and> a < 3 \<and> Q a"
          then obtain a where "attempt + 1 \<le> a" "a < 3" "Q a" by blast
          then have "attempt \<le> a \<and> a < 3 \<and> Q a" by simp
          then show ?thesis by blast
        qed
        show ?thesis
          using ih weaken[of "\<lambda>a. copy_loop hasLimiter N 0 (body (env a)) = (BytesWritten res, ReachedEOF)"]
          by blast
      qed
    qed
  qed
qed

lemma short_write_is_error:
  assumes "totalWritten < maxBytes" and "0 < read_n st"
    and "hasLimiter \<longrightarrow> wait_err st = None" and "write_err st = None"
    and "write_n st < min (read_n st) (min (32 * 1024) (maxBytes - totalWritten))"
  shows "\<exists>k msg. copy_loop hasLimiter maxBytes totalWritten (st # rest) = (k, CopyError msg)"
proof -
  define n where "n = max 0 (min (read_n st) (if 32 * 1024 > maxBytes - totalWritten
                                               then maxBytes - totalWritten else 32 * 1024))"
  define written where "written = (if n > 0 then max 0 (min (write_n st) n) else 0)"
  have n: "0 < n" "n = min (read_n st) (min (32 * 1024) (maxBytes - totalWritten))"
    using assms(1,2) by (auto simp add: n_def)
  have w: "written \<noteq> n"
    using n assms(5) by (auto simp add: written_def)
  have "copy_iteration hasLimiter maxBytes totalWritten st
          = (totalWritten + written,
             Some (CopyError (short_write_error written n)))"
    unfolding copy_iteration_def Let_def n_def[symmetric] written_def[symmetric]
    using n(1) w assms(3,4) by auto
  then show ?thesis using assms(1) by simp
qed

lemma processJob_short:
  "processJob False job10 env_short (\<lambda>k. None)
     = \<lparr> SegmentIndex = 0, BytesWritten = 4, Error = None, Completed' = True \<rparr>"
  unfolding processJob_def
  by (subst processJob_loop.simps)
     (simp add: downloadSegment_def copyWithRateLimit_def copy_iteration_def job10_def
        env_short_def read_step_def Let_def)

lemma processJob_full:
  "processJob False job10 env_full (\<lambda>k. None)
     = \<lparr> SegmentIndex = 0, BytesWritten = 10, Error = None, Completed' = True \<rparr>"
  unfolding processJob_def
  by (subst processJob_loop.simps)
     (simp add: downloadSegment_def copyWithRateLimit_def copy_iteration_def job10_def
        env_full_def read_step_def Let_def)


lemma job10_range: "End (Segment job10) - Start (Segment job10) + 1 = 10"
  by (simp add: job10_def)

section \<open>Claims about the worker\<close>

text \<open>
  C2, as the code has it. \<open>processJob\<close> reports a segment either as completed or with an
  error, never both. When it reports the segment as completed, the bytes written are
  between 0 and \<open>end - start + 1\<close>, and they are fewer than \<open>end - start + 1\<close> only when
  the response body of the successful attempt reached EOF first: an early EOF ends the
  copy without an error. A short write of a chunk to the file (fewer bytes written than
  read, without a write error) is an error of the copy.
\<close>

theorem C2_completed_segment_byte_count:
  assumes "res = processJob hasLimiter job env cancel"
    and "N = End (Segment job) - Start (Segment job) + 1"
  shows "(Completed' res \<longleftrightarrow> Error res = None)
         \<and> (Completed' res \<longrightarrow>
               0 \<le> BytesWritten res \<and> BytesWritten res \<le> max 0 N
               \<and> (BytesWritten res < N \<longrightarrow>
                    (\<exists>a. 0 \<le> a \<and> a < 3
                       \<and> copy_loop hasLimiter N 0 (body (env a)) = (BytesWritten res, ReachedEOF))))
         \<and> (totalWritten < maxBytes \<and> 0 < read_n st
              \<and> (hasLimiter \<longrightarrow> wait_err st = None) \<and> write_err st = None
              \<and> write_n st < min (read_n st) (min (32 * 1024) (maxBytes - totalWritten))
             \<longrightarrow> (\<exists>k msg. copy_loop hasLimiter maxBytes totalWritten (st # rest)
                              = (k, CopyError msg)))"
proof -
  have "fresh \<lparr> SegmentIndex = Index (Segment job), BytesWritten = 0, Error = None,
                Completed' = False \<rparr>"
    by (simp add: fresh_def)
  then have a: "(Completed' res \<longleftrightarrow> Error res = None)
         \<and> (Completed' res \<longrightarrow>
               0 \<le> BytesWritten res \<and> BytesWritten res \<le> max 0 N
               \<and> (BytesWritten res < N \<longrightarrow>
                    (\<exists>a. 0 \<le> a \<and> a < 3
                       \<and> copy_loop hasLimiter N 0 (body (env a)) = (BytesWritten res, ReachedEOF))))"
    using processJob_loop_outcome[of 0 _ res hasLimiter job env cancel N] assms
    by (simp add: processJob_def)
  show ?thesis
    using a short_write_is_error[of totalWritten maxBytes st hasLimiter rest] by blast
qed

theorem C2_completed_segment_byte_count_witness:
  "Completed' (processJob False job10 env_full (\<lambda>k. None))
   \<and> Error (processJob False job10 env_full (\<lambda>k. None)) = None
   \<and> BytesWritten (processJob False job10 env_full (\<lambda>k. None)) = 10
   \<and> (\<exists>k msg. copy_loop False 10 0
          [\<lparr> read_n = 4, read_err = None, wait_err = None, write_n = 3, write_err = None,
             ctx_err = None \<rparr>] = (k, CopyError msg))"
proof -
  let ?st = "\<lparr> read_n = 4, read_err = None, wait_err = None, write_n = 3, write_err = None,
                ctx_err = None \<rparr>"
  have h: "(0::int) < 10 \<and> 0 < read_n ?st \<and> (False \<longrightarrow> wait_err ?st = None)
           \<and> write_err ?st = None \<and> write_n ?st < min (read_n ?st) (min (32 * 1024) (10 - 0))"
    by simp
  have t: "\<exists>k msg. copy_loop False 10 0 [?st] = (k, CopyError msg)"
    using C2_completed_segment_byte_count
      [OF refl job10_range[symmetric], of False env_full "\<lambda>k. None" 0 10 ?st "[]"] h
    by blast
  show ?thesis
    using t by (simp add: processJob_full)
qed

text \<open>
  The claim C2 as it is written fails: for the segment of bytes 0 to 9, a 206 response whose
  body ends cleanly after 4 bytes is reported as completed, without an error, with 4
  bytes written.
\<close>

theorem C2_short_body_counterexample:
  "End (Segment job10) - Start (Segment job10) + 1 = 10
   \<and> copy_loop False 10 0 (body (env_short 0)) = (4, ReachedEOF)
   \<and> Completed' (processJob False job10 env_short (\<lambda>k. None))
   \<and> Error (processJob False job10 env_short (\<lambda>k. None)) = None
   \<and> BytesWritten (processJob False job10 env_short (\<lambda>k. None)) = 4"
proof -
  have "copy_loop False 10 0 (body (env_short 0)) = (4, ReachedEOF)"
    by (simp add: env_short_def read_step_def copy_iteration_def Let_def)
  then show ?thesis
    by (simp add: processJob_short job10_range)
qed

section \<open>Lemmas about the coordinator\<close>

lemma result_loop_no_verify:
  "VerifyIntegrity \<notin> set (snd (result_loop c e rs))"
proof (induction rs arbitrary: c)
  case Nil
  show ?case by simp
next
  case (Cons r rs)
  show ?case
    using Cons.IH[of "c + 1"] Cons.IH[of c]
    by (auto simp add: Let_def split: option.splits prod.splits if_splits)
qed

lemma executeDownload_trace:
  "VerifyIntegrity \<notin> set (snd (executeDownload meta segments io))"
  using result_loop_no_verify[of "int (length (filter SegmentInfo.Completed segments))"
      "int (length segments)" "results io"]
  by (auto simp add: executeDownload_def deferred_calls_def Let_def
      split: option.splits prod.splits)

lemma executeDownload_success:
  assumes "executeDownload meta segments io = (None, tr)"
  shows "\<exists>pre. tr = pre @ [AtomicRename] @ deferred_calls"
  using assms
  by (auto simp add: executeDownload_def Let_def split: option.splits prod.splits)

lemma retry_loop_trace:
  "VerifyIntegrity \<notin> set (snd (executeDownloadWithRetry_loop meta env attempt segments))"
proof (induction "nat (3 - attempt)" arbitrary: attempt segments)
  case 0
  then show ?case by (subst executeDownloadWithRetry_loop.simps) simp
next
  case (Suc m)
  have m: "m = nat (3 - (attempt + 1))" using Suc.hyps(2) by simp
  have lt: "attempt < 3" using Suc.hyps(2) by simp
  note ih = Suc.hyps(1)[OF m]
  obtain err tr where ed: "executeDownload meta segments (attempt_ios env attempt) = (err, tr)"
    by (cases "executeDownload meta segments (attempt_ios env attempt)")
  have tr: "VerifyIntegrity \<notin> set tr"
    using executeDownload_trace[of meta segments "attempt_ios env attempt"] ed by simp
  show ?case
    apply (subst executeDownloadWithRetry_loop.simps)
    using lt ed tr ih
    apply (auto simp add: Let_def split: option.splits prod.splits)
    apply (metis snd_conv)+
    done
qed

lemma retry_loop_success:
  assumes "executeDownloadWithRetry_loop meta env attempt segments = (None, tr)"
  shows "\<exists>pre. tr = pre @ [AtomicRename] @ deferred_calls"
  using assms
proof (induction "nat (3 - attempt)" arbitrary: attempt segments tr)
  case 0
  then show ?case by (subst (asm) executeDownloadWithRetry_loop.simps) simp
next
  case (Suc m)
  have m: "m = nat (3 - (attempt + 1))" using Suc.hyps(2) by simp
  have lt: "attempt < 3" using Suc.hyps(2) by simp
  obtain err tr0 where ed: "executeDownload meta segments (attempt_ios env attempt) = (err, tr0)"
    by (cases "executeDownload meta segments (attempt_ios env attempt)")
  show ?case
  proof (cases err)
    case None
    then have "tr = tr0"
      using Suc.prems lt ed by (subst (asm) executeDownloadWithRetry_loop.simps) simp
    then show ?thesis using executeDownload_success ed None by blast
  next
    case (Some e)
    then obtain segs1 tr1 where
      rec: "executeDownloadWithRetry_loop meta env (attempt + 1) segs1 = (None, tr1)"
      and tr: "\<exists>mid. tr = tr0 @ mid @ tr1"
      using Suc.prems lt ed
      by (subst (asm) executeDownloadWithRetry_loop.simps)
         (auto simp add: Let_def split: if_splits prod.splits option.splits)
    from Suc.hyps(1)[OF m rec] obtain pre where "tr1 = pre @ [AtomicRename] @ deferred_calls"
      by blast
    with tr show ?thesis by (metis append.assoc)
  qed
qed

lemma download_success_run:
  "Download NewDownloadPlanner env_success 0 (Some meta10) (Some config10) =
   (None,
    [EnsureDir, DetectResume, PlanSegments, CreatePartFile, SaveResume,
     OpenPartFile, TruncatePartFile, StartWorkers, ResultReceived 0,
     UpdateSegmentProgress 0, AtomicRename, ProgressFinish, CancelPool,
     JoinWorkers, ClosePartFile, VerifyIntegrity, CleanupResumeMetadata])"
proof -
  have plan: "PlanDownload NewDownloadPlanner (Some meta10) (Some config10)
        = Inr [\<lparr> Index = 0, Start = 0, End = 9, Completed = False, Retries = 0 \<rparr>]"
    by (simp add: PlanDownload_def CalculateSegments_def determineOptimalThreads_def
        NewDownloadPlanner_def MinSegmentSize_def MaxThreads_def meta10_def config10_def Let_def)
  have run: "executeDownloadWithRetry meta10
        [\<lparr> Index = 0, Start = 0, End = 9, Completed = False, Retries = 0 \<rparr>] env_success
      = (None, [OpenPartFile, TruncatePartFile, StartWorkers, ResultReceived 0,
                UpdateSegmentProgress 0, AtomicRename, ProgressFinish, CancelPool,
                JoinWorkers, ClosePartFile])"
    unfolding executeDownloadWithRetry_def
    by (subst executeDownloadWithRetry_loop.simps)
       (simp add: executeDownload_def env_success_def deferred_calls_def Let_def)
  have size: "Size meta10 = 10" by (simp add: meta10_def)
  have env: "ensure_dir_err env_success = None" "detect env_success = DetectNothing"
    "part_file_err env_success = None" "save_err env_success = None"
    "file_size env_success = Inr 10"
    by (simp_all add: env_success_def)
  show ?thesis
    by (simp add: Download_def Let_def plan run size env verifyFileIntegrity_def)
qed

section \<open>Claims about the coordinator\<close>

text \<open>
  C3, as the code has it. In every successful run of \<open>Download\<close> the rename of the part
  file to the output file is the last action of the successful \<open>executeDownload\<close> before
  its deferred calls, which finish the progress display, shut the pool down (cancel, then
  join the workers) and close the part file; the integrity check, of the size of the
  output file, follows them, and no integrity check happens before the rename.
\<close>

theorem C3_rename_precedes_verification:
  assumes "Download p env now meta config = (None, tr)"
  shows "\<exists>pre. tr = pre @ [AtomicRename, ProgressFinish, CancelPool, JoinWorkers, ClosePartFile,
                          VerifyIntegrity, CleanupResumeMetadata]
               \<and> VerifyIntegrity \<notin> set pre"
proof -
  from assms obtain m c ev3 segments tr1 where
    run: "executeDownloadWithRetry m segments env = (None, tr1)"
    and tr: "tr = ev3 @ [SaveResume] @ tr1 @ [VerifyIntegrity, CleanupResumeMetadata]"
    and ev3: "VerifyIntegrity \<notin> set ev3"
    by (auto simp add: Download_def Let_def
        split: option.splits sum.splits prod.splits if_splits detect_answer.splits)
  have "executeDownloadWithRetry_loop m env 0 segments = (None, tr1)"
    using run by (simp add: executeDownloadWithRetry_def)
  from retry_loop_success[OF this]
  obtain pre where pre: "tr1 = pre @ [AtomicRename] @ deferred_calls"
    by blast
  have "VerifyIntegrity \<notin> set tr1"
    using retry_loop_trace[of m env 0 segments] run by (simp add: executeDownloadWithRetry_def)
  then have "VerifyIntegrity \<notin> set (ev3 @ [SaveResume] @ pre)"
    using ev3 pre by simp
  moreover have "tr = (ev3 @ [SaveResume] @ pre) @ [AtomicRename, ProgressFinish, CancelPool,
      JoinWorkers, ClosePartFile, VerifyIntegrity, CleanupResumeMetadata]"
    using tr pre by (simp add: deferred_calls_def)
  ultimately show ?thesis by blast
qed

theorem C3_rename_precedes_verification_witness:
  "\<exists>pre. snd (Download NewDownloadPlanner env_success 0 (Some meta10) (Some config10))
      = pre @ [AtomicRename, ProgressFinish, CancelPool, JoinWorkers, ClosePartFile,
               VerifyIntegrity, CleanupResumeMetadata]
     \<and> VerifyIntegrity \<notin> set pre"
  using C3_rename_precedes_verification
    [of NewDownloadPlanner env_success 0 "Some meta10" "Some config10"
        "snd (Download NewDownloadPlanner env_success 0 (Some meta10) (Some config10))"]
  by (simp add: download_success_run)

text \<open>
  The claim C3 as it is written fails: in a successful run the rename comes before the
  workers are joined and before the integrity check, not after them.
\<close>

theorem C3_rename_before_verification_counterexample:
  "fst (Download NewDownloadPlanner env_success 0 (Some meta10) (Some config10)) = None
   \<and> precedes AtomicRename VerifyIntegrity
        (snd (Download NewDownloadPlanner env_success 0 (Some meta10) (Some config10)))
   \<and> precedes AtomicRename JoinWorkers
        (snd (Download NewDownloadPlanner env_success 0 (Some meta10) (Some config10)))
   \<and> \<not> precedes VerifyIntegrity AtomicRename
        (snd (Download NewDownloadPlanner env_success 0 (Some meta10) (Some config10)))
   \<and> \<not> precedes JoinWorkers AtomicRename
        (snd (Download NewDownloadPlanner env_success 0 (Some meta10) (Some config10)))"
  by (simp add: download_success_run precedes_def)

section \<open>Lemmas about the resume metadata\<close>

lemma paths_differ: "outputPath @ ResumeMetadataExt \<noteq> outputPath @ ''.part''"
  by (simp add: ResumeMetadataExt_def)


lemma fs_resumable_nodes:
  "fs_resumable (out10 @ ResumeMetadataExt) = Regular resume10 100"
  "fs_resumable (out10 @ ''.part'') = Regular resume10 10"
  by (simp_all add: fs_resumable_def ResumeMetadataExt_def out10_def)

lemma resume10_size: "FileMeta resume10 = Some meta10" "Size meta10 = 10"
  by (simp_all add: resume10_def meta10_def)

section \<open>Claims about the resume metadata\<close>



text \<open>
  C5. \<open>DetectResumableDownload\<close> returns the resume record exactly when the metadata file
  and the part file both exist, the metadata parses and records an expected size, and the
  size of the part file is at most that size. When the metadata file exists and the part
  file does not, it removes the metadata file and returns nothing, without an error. When
  the part file is larger than the expected size, it removes both files and returns an
  error.
\<close>

theorem C5_detect_resumable:
  fixes codec :: "'b json_codec"
  assumes "DetectResumableDownload codec fs outputPath = (res, fs')"
    and "metadataPath = outputPath @ ResumeMetadataExt" and "partPath = outputPath @ ''.part''"
  shows "((res = Resume r) \<longleftrightarrow>
            (\<exists>data n pdata partSize fm.
                fs metadataPath = Regular data n \<and> fs partPath = Regular pdata partSize
                \<and> unmarshal codec data = Some r \<and> FileMeta r = Some fm \<and> partSize \<le> Size fm))
         \<and> ((\<exists>data n. fs metadataPath = Regular data n) \<and> fs partPath = Absent
              \<longrightarrow> res = NoResume \<and> fs' metadataPath = Absent)
         \<and> ((\<exists>data n pdata partSize r0 fm.
                fs metadataPath = Regular data n \<and> fs partPath = Regular pdata partSize
                \<and> unmarshal codec data = Some r0 \<and> FileMeta r0 = Some fm \<and> partSize > Size fm)
              \<longrightarrow> (\<exists>e. res = DetectError e) \<and> fs' metadataPath = Absent \<and> fs' partPath = Absent)"
proof -
  have ne: "metadataPath \<noteq> partPath" using assms(2,3) paths_differ by simp
  show ?thesis
    using assms(1) ne
    unfolding DetectResumableDownload_def LoadResumeMetadata_def Let_def
      assms(2)[symmetric] assms(3)[symmetric]
    by (cases "fs metadataPath"; cases "fs partPath")
       (auto simp add: os_remove_def split: option.splits if_splits)
qed


theorem C5_detect_resumable_witness:
  "fst (DetectResumableDownload record_codec fs_resumable out10) = Resume resume10"
proof -
  have "unmarshal record_codec resume10 = Some resume10"
    by (simp add: record_codec_def)
  then have "\<exists>data n pdata partSize fm.
          fs_resumable (out10 @ ResumeMetadataExt) = Regular data n
          \<and> fs_resumable (out10 @ ''.part'') = Regular pdata partSize
          \<and> unmarshal record_codec data = Some resume10 \<and> FileMeta resume10 = Some fm
          \<and> partSize \<le> Size fm"
    using fs_resumable_nodes resume10_size by fastforce
  then show ?thesis
    using C5_detect_resumable
      [OF prod.collapse[symmetric] refl refl, of record_codec fs_resumable out10 resume10]
    by blast
qed

end
